theory Spec2Isabelle
  imports Complex_Main "HOL-Library.Word"
begin

section \<open>Values and failures\<close>

text \<open>
  The module works on the coefficient arrays of multivectors of the 3D conformal
  geometric algebra: 32 floating point coefficients in six grade bands of sizes
  1, 5, 10, 10, 5, 1.  A coefficient is modelled as a real number and an array as a
  list.  Every exception that the Python code can raise is a value of \<open>error\<close>:
  \<open>IndexError\<close> and \<open>BroadcastError\<close> for array accesses, \<open>MathDomainError\<close> for
  \<open>math.sqrt\<close> of a negative number, \<open>ZeroDivisionError\<close> for a division of Python
  numbers by zero, \<open>OverflowError\<close> for a Python integer that does not fit the
  machine integer of a compiled function, \<open>NoInverse\<close> for a multivector without inverse and \<open>NoRootExists\<close>
  for the \<open>ValueError('No root exists')\<close> of the root finders.  Where numpy would not
  raise but produce \<open>inf\<close> or \<open>nan\<close> coefficients (an array divided by zero,
  \<open>np.sqrt\<close> of a negative number), the real numbers have no such value and the model
  reports \<open>NonFinite\<close>.
\<close>

type_synonym mv = "real list"

datatype error =
    IndexError
  | BroadcastError
  | MathDomainError
  | ZeroDivisionError
  | OverflowError
  | NonFinite
  | NoInverse
  | NoRootExists

definition bind_err :: "error + 'a \<Rightarrow> ('a \<Rightarrow> error + 'b) \<Rightarrow> error + 'b" where
  "bind_err r f = (case r of Inl e \<Rightarrow> Inl e | Inr v \<Rightarrow> f v)"

text \<open>\<open>np.zeros(n)\<close>.\<close>

definition np_zeros :: "nat \<Rightarrow> mv" where
  "np_zeros n = replicate n 0"

text \<open>\<open>val[i]\<close> for a non-negative index: out of range raises.\<close>

definition get_item :: "mv \<Rightarrow> nat \<Rightarrow> error + real" where
  "get_item val i = (if i < length val then Inr (val ! i) else Inl IndexError)"

text \<open>\<open>output[i] = x\<close>.\<close>

definition set_item :: "mv \<Rightarrow> nat \<Rightarrow> real \<Rightarrow> error + mv" where
  "set_item output i x = (if i < length output then Inr (output[i := x]) else Inl IndexError)"

text \<open>\<open>val[lo:hi]\<close> with \<open>0 \<le> lo \<le> hi\<close>: a slice is clipped to the array, never an error.\<close>

definition get_slice :: "mv \<Rightarrow> nat \<Rightarrow> nat \<Rightarrow> mv" where
  "get_slice val lo hi = take (hi - lo) (drop lo val)"

text \<open>
  \<open>output[lo:hi] = src\<close>: the source must have as many elements as the (clipped) target
  slice, or exactly one element, which is then broadcast.
\<close>

definition set_slice :: "mv \<Rightarrow> nat \<Rightarrow> nat \<Rightarrow> mv \<Rightarrow> error + mv" where
  "set_slice output lo hi src =
     (let n = length (get_slice output lo hi) in
      if length src = n then Inr (take lo output @ src @ drop (lo + n) output)
      else if length src = 1 then Inr (take lo output @ replicate n (src ! 0) @ drop (lo + n) output)
      else Inl BroadcastError)"

section \<open>Grade projection\<close>

text \<open>
  \<open>project_val\<close> is compiled by numba, which takes the grade as a signed 64-bit integer:
  a call with a Python integer outside that range raises \<open>OverflowError\<close> before the
  body runs.
\<close>

definition fits_int64 :: "int \<Rightarrow> bool" where
  "fits_int64 g \<longleftrightarrow> - (2 ^ 63) \<le> g \<and> g < 2 ^ 63"

definition project_val :: "mv \<Rightarrow> int \<Rightarrow> error + mv" where
  "project_val val grade =
     (if \<not> fits_int64 grade then Inl OverflowError
      else
      let output = np_zeros 32 in
      if grade = 0 then bind_err (get_item val 0) (\<lambda>x. set_item output 0 x)
      else if grade = 1 then set_slice output 1 6 (get_slice val 1 6)
      else if grade = 2 then set_slice output 6 16 (get_slice val 6 16)
      else if grade = 3 then set_slice output 16 26 (get_slice val 16 26)
      else if grade = 4 then set_slice output 26 31 (get_slice val 26 31)
      else if grade = 5 then bind_err (get_item val 31) (\<lambda>x. set_item output 31 x)
      else Inr output)"

text \<open>The coefficient band of a grade: the index range that \<open>project_val\<close> copies.\<close>

definition band :: "int \<Rightarrow> nat set" where
  "band grade =
     (if grade = 0 then {0}
      else if grade = 1 then {1..<6}
      else if grade = 2 then {6..<16}
      else if grade = 3 then {16..<26}
      else if grade = 4 then {26..<31}
      else if grade = 5 then {31}
      else {})"

definition band_mask :: "mv \<Rightarrow> int \<Rightarrow> mv" where
  "band_mask val grade = map (\<lambda>i. if i \<in> band grade then val ! i else 0) [0..<32]"

section \<open>The algebra backend\<close>

text \<open>
  Modelled from the spec: the module reads its products from the \<open>layout\<close> object of
  \<open>clifford.g3c\<close>, which is not part of the sources at hand.  The spec lists what the
  backend provides: geometric, outer and inner product, each from two multivectors to a
  multivector, the versor adjoint, inversion and the fixed basis constants.  They are
  the fields of a record, and every function of the module takes the record as its first
  argument, so that a theorem about the module holds for every backend.
\<close>

record layout =
  gmt_func :: "mv \<Rightarrow> mv \<Rightarrow> mv"
  omt_func :: "mv \<Rightarrow> mv \<Rightarrow> mv"
  imt_func :: "mv \<Rightarrow> mv \<Rightarrow> mv"
  adjoint_func :: "mv \<Rightarrow> mv"
  inv_func :: "mv \<Rightarrow> error + mv"
  e1 :: mv
  e123 :: mv
  einf :: mv
  eo :: mv

text \<open>
  Modelled from the spec: the operators of the class \<open>MultiVector\<close>, which wraps a
  coefficient array of the layout, are not part of the sources either.  A multivector
  is modelled by its coefficient array; all arrays of one layout have the same length.
  The operators below are the ones the module uses: a float is coerced to the
  multivector with that scalar part (\<open>scalar_mv\<close>), sums, differences, negation and
  products or quotients with a float work coefficient by coefficient, \<open>a * b\<close> is the
  geometric product, \<open>~a\<close> the adjoint, \<open>a[0]\<close> the scalar coefficient, \<open>a(g)\<close> the
  part of grade \<open>g\<close>, \<open>s / a\<close> the product of \<open>s\<close> with the inverse of \<open>a\<close>, and
  \<open>a.normal()\<close> is \<open>a\<close> divided by its magnitude \<open>sqrt(abs((~a * a)[0]))\<close>, the
  normalization that the spec describes as magnitude extraction and scalar division.
\<close>

definition scalar_mv :: "real \<Rightarrow> mv" where
  "scalar_mv s = s # replicate 31 0"

definition mv_add :: "mv \<Rightarrow> mv \<Rightarrow> mv" where
  "mv_add a b = map2 (+) a b"

definition mv_sub :: "mv \<Rightarrow> mv \<Rightarrow> mv" where
  "mv_sub a b = map2 (-) a b"

definition mv_neg :: "mv \<Rightarrow> mv" where
  "mv_neg a = map uminus a"

definition mv_smul :: "real \<Rightarrow> mv \<Rightarrow> mv" where
  "mv_smul s a = map (\<lambda>x. s * x) a"

definition mv_div_scalar :: "mv \<Rightarrow> real \<Rightarrow> error + mv" where
  "mv_div_scalar a s = (if s = 0 then Inl NonFinite else Inr (map (\<lambda>x. x / s) a))"

definition mv_add_scalar :: "mv \<Rightarrow> real \<Rightarrow> mv" where
  "mv_add_scalar a s = mv_add a (scalar_mv s)"

definition mv_sub_scalar :: "mv \<Rightarrow> real \<Rightarrow> mv" where
  "mv_sub_scalar a s = mv_sub a (scalar_mv s)"

definition mv_rsub_scalar :: "real \<Rightarrow> mv \<Rightarrow> mv" where
  "mv_rsub_scalar s a = mv_sub (scalar_mv s) a"

definition mv_call :: "mv \<Rightarrow> int \<Rightarrow> mv" where
  "mv_call a grade = map (\<lambda>i. if i \<in> band grade then a ! i else 0) [0..<length a]"

definition mv_pow2 :: "layout \<Rightarrow> mv \<Rightarrow> mv" where
  "mv_pow2 L a = gmt_func L a a"

definition mv_rdiv :: "layout \<Rightarrow> real \<Rightarrow> mv \<Rightarrow> error + mv" where
  "mv_rdiv L s a = bind_err (inv_func L a) (\<lambda>ai. Inr (gmt_func L (scalar_mv s) ai))"

definition mv_mag2 :: "layout \<Rightarrow> mv \<Rightarrow> error + real" where
  "mv_mag2 L a = get_item (gmt_func L (adjoint_func L a) a) 0"

definition mv_abs :: "layout \<Rightarrow> mv \<Rightarrow> error + real" where
  "mv_abs L a = bind_err (mv_mag2 L a) (\<lambda>m. Inr (sqrt \<bar>m\<bar>))"

definition normal :: "layout \<Rightarrow> mv \<Rightarrow> error + mv" where
  "normal L a = bind_err (mv_abs L a) (\<lambda>m. mv_div_scalar a m)"

text \<open>\<open>math.sqrt\<close> raises on a negative argument; \<open>np.sqrt\<close> returns \<open>nan\<close> there.\<close>

definition math_sqrt :: "real \<Rightarrow> error + real" where
  "math_sqrt x = (if x < 0 then Inl MathDomainError else Inr (sqrt x))"

definition np_sqrt :: "real \<Rightarrow> error + real" where
  "np_sqrt x = (if x < 0 then Inl NonFinite else Inr (sqrt x))"

text \<open>\<open>np.sinc(x)\<close> is \<open>sin(pi x) / (pi x)\<close>, and 1 at 0.\<close>

definition np_sinc :: "real \<Rightarrow> real" where
  "np_sinc x = (if x = 0 then 1 else sin (pi * x) / (pi * x))"

text \<open>\<open>np.finfo(float).eps\<close>, the distance from 1.0 to the next double.\<close>

definition float_eps :: real where
  "float_eps = 1 / 2 ^ 52"

text \<open>\<open>xs[0]\<close> on a Python list.\<close>

definition first :: "'a list \<Rightarrow> error + 'a" where
  "first xs = (case xs of [] \<Rightarrow> Inl IndexError | x # _ \<Rightarrow> Inr x)"

section \<open>Module constants\<close>

definition ninf :: "layout \<Rightarrow> mv" where
  "ninf L = einf L"

definition no :: "layout \<Rightarrow> mv" where
  "no L = mv_neg (eo L)"

definition I3 :: "layout \<Rightarrow> mv" where
  "I3 L = e123 L"

definition unit_scalar_mv :: "layout \<Rightarrow> mv" where
  "unit_scalar_mv L = mv_add_scalar (mv_smul 0 (e1 L)) 1"

section \<open>Square roots of rotors\<close>

definition dorst_norm_val :: "layout \<Rightarrow> mv \<Rightarrow> error + real" where
  "dorst_norm_val L sigma =
     bind_err (get_item sigma 0) (\<lambda>s0.
     bind_err (get_item (mv_pow2 L (mv_call sigma 4)) 0) (\<lambda>q.
     math_sqrt (s0 ^ 2 - q)))"

definition check_sigma_for_positive_root :: "layout \<Rightarrow> mv \<Rightarrow> error + bool" where
  "check_sigma_for_positive_root L sigma =
     bind_err (get_item sigma 0) (\<lambda>s0.
     bind_err (dorst_norm_val L sigma) (\<lambda>n. Inr (s0 + n > 0)))"

definition check_sigma_for_negative_root :: "layout \<Rightarrow> mv \<Rightarrow> error + bool" where
  "check_sigma_for_negative_root L sigma =
     bind_err (get_item sigma 0) (\<lambda>s0.
     bind_err (dorst_norm_val L sigma) (\<lambda>n. Inr (s0 - n > 0)))"

definition check_infinite_roots :: "layout \<Rightarrow> mv \<Rightarrow> error + bool" where
  "check_infinite_roots L sigma =
     bind_err (get_item sigma 0) (\<lambda>s0.
     bind_err (dorst_norm_val L sigma) (\<lambda>n. Inr (s0 + n < 0.0000000001)))"

definition positive_root :: "layout \<Rightarrow> mv \<Rightarrow> error + mv" where
  "positive_root L sigma =
     bind_err (dorst_norm_val L sigma) (\<lambda>norm_s.
     bind_err (math_sqrt 2) (\<lambda>r2.
     bind_err (get_item sigma 0) (\<lambda>s0.
     bind_err (math_sqrt (s0 + norm_s)) (\<lambda>r.
     mv_div_scalar (mv_add_scalar sigma norm_s) (r2 * r)))))"

definition negative_root :: "layout \<Rightarrow> mv \<Rightarrow> error + mv" where
  "negative_root L sigma =
     bind_err (dorst_norm_val L sigma) (\<lambda>norm_s.
     bind_err (math_sqrt 2) (\<lambda>r2.
     bind_err (get_item sigma 0) (\<lambda>s0.
     bind_err (math_sqrt (s0 - norm_s)) (\<lambda>r.
     mv_div_scalar (mv_sub_scalar sigma norm_s) (r2 * r)))))"

definition neg_twiddle_root :: "layout \<Rightarrow> mv \<Rightarrow> error + mv list" where
  "neg_twiddle_root L C =
     (let sigma = mv_neg (gmt_func L C (adjoint_func L C)) in
      bind_err (check_sigma_for_positive_root L sigma) (\<lambda>pos.
      if pos then
        bind_err (positive_root L sigma) (\<lambda>k.
        bind_err (mv_rdiv L 1 k) (\<lambda>ki.
        bind_err (normal L (gmt_func L ki C)) (\<lambda>C3.
        Inr [C3])))
      else
        bind_err (check_sigma_for_negative_root L sigma) (\<lambda>neg.
        if neg then
          bind_err (positive_root L sigma) (\<lambda>k.
          bind_err (mv_rdiv L 1 k) (\<lambda>ki.
          bind_err (normal L (gmt_func L ki C)) (\<lambda>C3.
          bind_err (negative_root L sigma) (\<lambda>k2.
          bind_err (mv_rdiv L 1 k2) (\<lambda>k2i.
          bind_err (normal L (gmt_func L k2i C)) (\<lambda>C4.
          Inr [C3, C4]))))))
        else
          bind_err (check_infinite_roots L sigma) (\<lambda>infinite.
          if infinite then bind_err (normal L C) (\<lambda>Cn. Inr [Cn])
          else Inl NoRootExists))))"

definition pos_twiddle_root :: "layout \<Rightarrow> mv \<Rightarrow> error + mv list" where
  "pos_twiddle_root L C =
     (let sigma = gmt_func L C (adjoint_func L C) in
      bind_err (check_sigma_for_positive_root L sigma) (\<lambda>pos.
      if pos then
        bind_err (positive_root L sigma) (\<lambda>k.
        bind_err (mv_rdiv L 1 k) (\<lambda>ki.
        bind_err (normal L (gmt_func L ki C)) (\<lambda>C3.
        Inr [C3])))
      else
        bind_err (check_sigma_for_negative_root L sigma) (\<lambda>neg.
        if neg then
          bind_err (positive_root L sigma) (\<lambda>k.
          bind_err (mv_rdiv L 1 k) (\<lambda>ki.
          bind_err (normal L (gmt_func L ki C)) (\<lambda>C3.
          bind_err (negative_root L sigma) (\<lambda>k2.
          bind_err (mv_rdiv L 1 k2) (\<lambda>k2i.
          bind_err (normal L (gmt_func L k2i C)) (\<lambda>C4.
          Inr [C3, C4]))))))
        else
          bind_err (check_infinite_roots L sigma) (\<lambda>infinite.
          if infinite then bind_err (normal L C) (\<lambda>Cn. Inr [Cn])
          else Inl NoRootExists))))"

definition square_roots_of_rotor :: "layout \<Rightarrow> mv \<Rightarrow> error + mv list" where
  "square_roots_of_rotor L R = pos_twiddle_root L (mv_add_scalar R 1)"

section \<open>Interpolation, averaging and the rotor between two objects\<close>




definition rotor_between_objects :: "layout \<Rightarrow> mv \<Rightarrow> mv \<Rightarrow> error + mv" where
  "rotor_between_objects L C1 C2 =
     bind_err (get_item (gmt_func L C1 C1) 0) (\<lambda>c.
     if c > 0 then
       (let C = mv_add_scalar (gmt_func L C2 C1) 1 in
        bind_err (pos_twiddle_root L C) (\<lambda>roots. first roots))
     else normal L (mv_rsub_scalar 1 (gmt_func L C2 C1)))"

section \<open>Applying a rotor\<close>

definition val_apply_rotor :: "layout \<Rightarrow> mv \<Rightarrow> mv \<Rightarrow> mv" where
  "val_apply_rotor L mv_val rotor_val =
     gmt_func L rotor_val (gmt_func L mv_val (adjoint_func L rotor_val))"

definition apply_rotor :: "layout \<Rightarrow> mv \<Rightarrow> mv \<Rightarrow> mv" where
  "apply_rotor L mv_in rotor = val_apply_rotor L mv_in rotor"

section \<open>The exponential of a bivector\<close>

definition mult_with_ninf :: "layout \<Rightarrow> mv \<Rightarrow> mv" where
  "mult_with_ninf L m = gmt_func L m (ninf L)"

definition val_exp :: "layout \<Rightarrow> mv \<Rightarrow> error + mv" where
  "val_exp L B_val =
     (let t_val = imt_func L B_val (no L);
          phiP_val = mv_sub B_val (mult_with_ninf L t_val) in
      bind_err (get_item (gmt_func L phiP_val phiP_val) 0) (\<lambda>pp.
      bind_err (np_sqrt (- pp)) (\<lambda>phi.
      bind_err (mv_div_scalar phiP_val phi) (\<lambda>P_val.
      (let P_n_val = gmt_func L P_val (I3 L);
           t_nor_val = gmt_func L (imt_func L t_val P_n_val) P_n_val;
           t_par_val = mv_sub t_val t_nor_val;
           coef0 = mv_smul (sin phi) P_val in
       bind_err (get_item coef0 0) (\<lambda>c0.
       bind_err (set_item coef0 0 (c0 + cos phi)) (\<lambda>coef_val.
       Inr (mv_add
             (mv_add coef_val (gmt_func L coef_val (mult_with_ninf L t_nor_val)))
             (mv_smul (np_sinc (phi / pi)) (mult_with_ninf L t_par_val))))))))))"

definition sum_abs :: "mv \<Rightarrow> real" where
  "sum_abs B = sum_list (map abs B)"

definition ga_exp :: "layout \<Rightarrow> mv \<Rightarrow> error + mv" where
  "ga_exp L B =
     (if sum_abs B < float_eps then Inr (unit_scalar_mv L)
      else val_exp L B)"

section \<open>The conformal algebra of 3D space as a backend\<close>

text \<open>
  Modelled from the spec: the layout of \<open>clifford.g3c\<close> is the Clifford algebra over five
  orthonormal basis vectors, four of square \<open>+1\<close> and the fifth of square \<open>-1\<close>.  Its
  32 basis blades are ordered by grade and, within a grade, lexicographically, which
  gives the bands of sizes 1, 5, 10, 10, 5, 1 of the spec.  A blade is the set of its
  basis vectors, held as a five-bit word (bit \<open>i\<close> for the vector \<open>e(i+1)\<close>);
  \<open>blade_bits\<close> lists the blades in coefficient order and \<open>blade_index\<close> is the
  position of a blade in that list.
\<close>

unbundle bit_operations_syntax

type_synonym blade = "5 word"

definition blade_bits :: "blade list" where
  "blade_bits =
     [0,
      1, 2, 4, 8, 16,
      3, 5, 9, 17, 6, 10, 18, 12, 20, 24,
      7, 11, 19, 13, 21, 25, 14, 22, 26, 28,
      15, 23, 27, 29, 30,
      31]"

definition blade_index :: "blade \<Rightarrow> nat" where
  "blade_index w =
     [0, 1, 2, 6, 3, 7, 10, 16, 4, 8, 11, 17, 13, 19, 22, 26,
      5, 9, 12, 18, 14, 20, 23, 27, 15, 21, 24, 28, 25, 29, 30, 31] ! unat w"

definition blade_grade :: "blade \<Rightarrow> nat" where
  "blade_grade w = length (filter (bit w) [0..<5])"

text \<open>
  Modelled from the spec: the sign of a product of basis blades.  The product of two
  basis blades is the blade of the symmetric difference of their vector sets, with a
  sign: one factor \<open>-1\<close> for every pair of a vector of the left blade and a vector of
  the right blade with a smaller index (the transpositions that sort the product), and
  the square of every vector that occurs in both.
\<close>

definition swap_pairs :: "(nat \<times> nat) list" where
  "swap_pairs = [(1, 0), (2, 0), (2, 1), (3, 0), (3, 1), (3, 2), (4, 0), (4, 1), (4, 2), (4, 3)]"

definition odd_pairs :: "(nat \<times> nat) list \<Rightarrow> blade \<Rightarrow> blade \<Rightarrow> bool" where
  "odd_pairs ps a b = foldr (\<lambda>(i, j) acc. (bit a i \<and> bit b j) \<noteq> acc) ps False"

definition blade_negative :: "blade \<Rightarrow> blade \<Rightarrow> bool" where
  "blade_negative a b = odd_pairs ((4, 4) # swap_pairs) a b"

definition blade_sign :: "blade \<Rightarrow> blade \<Rightarrow> real" where
  "blade_sign a b = (if blade_negative a b then - 1 else 1)"

text \<open>
  Modelled from the spec: the three product tables \<open>gmt_func\<close>, \<open>omt_func\<close> and
  \<open>imt_func\<close> of the layout.  A table keeps the terms of the geometric product whose
  grades satisfy a condition on the grades \<open>r\<close> and \<open>s\<close> of the two factors and \<open>t\<close> of
  the result: all of them for the geometric product, \<open>t = r + s\<close> for the outer product
  and \<open>t = |r - s|\<close> with \<open>r\<close> and \<open>s\<close> other than 0 for the inner product.
\<close>

definition blade_product :: "(nat \<Rightarrow> nat \<Rightarrow> nat \<Rightarrow> bool) \<Rightarrow> mv \<Rightarrow> mv \<Rightarrow> mv" where
  "blade_product keep a b =
     map (\<lambda>k. sum_list (map (\<lambda>p.
            (let q = p XOR (blade_bits ! k) in
             if keep (blade_grade p) (blade_grade q) (blade_grade (blade_bits ! k))
             then blade_sign p q * (a ! blade_index p) * (b ! blade_index q)
             else 0)) blade_bits)) [0..<32]"

definition g3c_gmt :: "mv \<Rightarrow> mv \<Rightarrow> mv" where
  "g3c_gmt = blade_product (\<lambda>r s t. True)"

definition g3c_omt :: "mv \<Rightarrow> mv \<Rightarrow> mv" where
  "g3c_omt = blade_product (\<lambda>r s t. t = r + s)"

definition g3c_imt :: "mv \<Rightarrow> mv \<Rightarrow> mv" where
  "g3c_imt = blade_product (\<lambda>r s t. r \<noteq> 0 \<and> s \<noteq> 0 \<and> (t + s = r \<or> t + r = s))"

text \<open>
  Modelled from the spec: \<open>adjoint_func\<close> of the layout, the reversion, which changes
  the sign of the grades 2 and 3.
\<close>

definition reverse_sign :: "nat \<Rightarrow> real" where
  "reverse_sign i = (if 6 \<le> i \<and> i < 26 then - 1 else 1)"

definition g3c_adjoint :: "mv \<Rightarrow> mv" where
  "g3c_adjoint a = map (\<lambda>i. reverse_sign i * a ! i) [0..<length a]"

text \<open>
  Modelled from the spec: the inverse of a multivector.  The library inverts by solving
  the linear system of the left multiplication.  The model computes the candidate that the closed form for this
  algebra gives: with \<open>m = k * ~k\<close>, \<open>z = m * m'\<close> where \<open>m'\<close> is \<open>m\<close> with the
  grades 1 and 4 negated, and \<open>n = z * z'\<close> where \<open>z'\<close> is \<open>z\<close> with the grade 5
  negated, the candidate is \<open>~k * m' * z'\<close> divided by the scalar part of \<open>n\<close>.  It is
  returned only when its product with \<open>k\<close> is the scalar 1, so that a returned value is
  the left inverse of \<open>k\<close>; otherwise the model reports \<open>NoInverse\<close>.
\<close>

definition is_scalar :: "mv \<Rightarrow> bool" where
  "is_scalar a = (a \<noteq> [] \<and> list_all (\<lambda>x. x = 0) (tl a))"

definition negate_grades_1_4 :: "mv \<Rightarrow> mv" where
  "negate_grades_1_4 a =
     map (\<lambda>i. if i \<in> band 1 \<union> band 4 then - (a ! i) else a ! i) [0..<length a]"

definition negate_grade_5 :: "mv \<Rightarrow> mv" where
  "negate_grade_5 a = map (\<lambda>i. if i \<in> band 5 then - (a ! i) else a ! i) [0..<length a]"

definition inverse_candidate :: "mv \<Rightarrow> real \<times> mv" where
  "inverse_candidate k =
     (let m = g3c_gmt k (g3c_adjoint k);
          m' = negate_grades_1_4 m;
          z = g3c_gmt m m';
          z' = negate_grade_5 z;
          n = g3c_gmt z z'
      in (n ! 0, g3c_gmt (g3c_adjoint k) (g3c_gmt m' z')))"

definition g3c_inv :: "mv \<Rightarrow> error + mv" where
  "g3c_inv k =
     (let (n, c) = inverse_candidate k in
      if n = 0 then Inl NoInverse
      else (let x = map (\<lambda>y. y / n) c in
            if g3c_gmt x k = scalar_mv 1 then Inr x else Inl NoInverse))"

text \<open>
  Modelled from the spec: the basis constants of the layout.  The point at infinity is
  \<open>e4 + e5\<close> and the origin is \<open>(e5 - e4) / 2\<close>, two null vectors.
\<close>

definition unit_mv :: "nat \<Rightarrow> mv" where
  "unit_mv i = (replicate 32 0)[i := 1]"

definition g3c :: layout where
  "g3c = \<lparr> gmt_func = g3c_gmt, omt_func = g3c_omt, imt_func = g3c_imt,
           adjoint_func = g3c_adjoint, inv_func = g3c_inv,
           e1 = unit_mv 1, e123 = unit_mv 16,
           einf = mv_add (unit_mv 4) (unit_mv 5),
           eo = mv_smul (1 / 2) (mv_sub (unit_mv 5) (unit_mv 4)) \<rparr>"

section \<open>Notions used to state the properties\<close>

text \<open>
  What both root finders do in a branch that extracts a root: the candidate \<open>k\<close> of the
  square root of \<open>sigma\<close> is inverted, multiplied with \<open>C\<close> and normalized.
\<close>

definition twiddle_branch :: "(layout \<Rightarrow> mv \<Rightarrow> error + mv) \<Rightarrow> layout \<Rightarrow> mv \<Rightarrow> mv \<Rightarrow> error + mv" where
  "twiddle_branch rootf L sigma C =
     bind_err (rootf L sigma) (\<lambda>k.
     bind_err (mv_rdiv L 1 k) (\<lambda>ki.
     normal L (gmt_func L ki C)))"

text \<open>
  The root as the spec words it: \<open>(C + dorst_norm) / (sqrt(2) * sqrt(s0 + dorst_norm))\<close>,
  normalized, with \<open>s0\<close> the scalar part of \<open>sigma\<close>.
\<close>

definition spec_positive_branch :: "layout \<Rightarrow> mv \<Rightarrow> mv \<Rightarrow> error + mv" where
  "spec_positive_branch L sigma C =
     bind_err (dorst_norm_val L sigma) (\<lambda>n.
     bind_err (get_item sigma 0) (\<lambda>s0.
     bind_err (mv_div_scalar (mv_add_scalar C n) (sqrt 2 * sqrt (s0 + n))) (\<lambda>r.
     normal L r)))"

text \<open>
  The laws of a geometric algebra that the algebraic properties rest on, each for the
  32-component arrays of the layout: the products stay in the layout, the geometric
  product is associative, the adjoint reverses a product, a scalar multivector acts as
  its number, both operations commute with scaling, and the inverse of a scalar other
  than zero is its reciprocal.
\<close>

definition closed_layout :: "layout \<Rightarrow> bool" where
  "closed_layout L \<longleftrightarrow>
     (\<forall>a b. length a = 32 \<and> length b = 32 \<longrightarrow>
        length (gmt_func L a b) = 32 \<and> length (adjoint_func L a) = 32)"

definition gmt_associative :: "layout \<Rightarrow> bool" where
  "gmt_associative L \<longleftrightarrow>
     (\<forall>a b c. length a = 32 \<and> length b = 32 \<and> length c = 32 \<longrightarrow>
        gmt_func L (gmt_func L a b) c = gmt_func L a (gmt_func L b c))"

definition adjoint_reverses :: "layout \<Rightarrow> bool" where
  "adjoint_reverses L \<longleftrightarrow>
     (\<forall>a b. length a = 32 \<and> length b = 32 \<longrightarrow>
        adjoint_func L (gmt_func L a b) = gmt_func L (adjoint_func L b) (adjoint_func L a))"

definition scalar_acts :: "layout \<Rightarrow> bool" where
  "scalar_acts L \<longleftrightarrow>
     (\<forall>c a. length a = 32 \<longrightarrow> gmt_func L (scalar_mv c) a = mv_smul c a)"

definition homogeneous :: "layout \<Rightarrow> bool" where
  "homogeneous L \<longleftrightarrow>
     (\<forall>c d a b. length a = 32 \<and> length b = 32 \<longrightarrow>
        gmt_func L (mv_smul c a) (mv_smul d b) = mv_smul (c * d) (gmt_func L a b) \<and>
        adjoint_func L (mv_smul c a) = mv_smul c (adjoint_func L a))"

definition inv_scalar :: "layout \<Rightarrow> bool" where
  "inv_scalar L \<longleftrightarrow> (\<forall>c. c \<noteq> 0 \<longrightarrow> inv_func L (scalar_mv c) = Inr (scalar_mv (1 / c)))"

text \<open>
  A valid object for interpolation: a 32-component multivector whose product with its
  reverse is a scalar, as it is for every blade and every versor.
\<close>

definition valid_object :: "layout \<Rightarrow> mv \<Rightarrow> bool" where
  "valid_object L X \<longleftrightarrow> length X = 32 \<and> is_scalar (gmt_func L X (adjoint_func L X))"

text \<open>The \<open>sigma\<close> of the two root finders, and the three case conditions in order.\<close>

definition neg_sigma :: "layout \<Rightarrow> mv \<Rightarrow> mv" where
  "neg_sigma L C = mv_neg (gmt_func L C (adjoint_func L C))"

definition pos_sigma :: "layout \<Rightarrow> mv \<Rightarrow> mv" where
  "pos_sigma L C = gmt_func L C (adjoint_func L C)"

definition case_A :: "layout \<Rightarrow> mv \<Rightarrow> bool" where
  "case_A L sigma \<longleftrightarrow> check_sigma_for_positive_root L sigma = Inr True"

definition case_B :: "layout \<Rightarrow> mv \<Rightarrow> bool" where
  "case_B L sigma \<longleftrightarrow>
     check_sigma_for_positive_root L sigma = Inr False \<and>
     check_sigma_for_negative_root L sigma = Inr True"

definition case_C :: "layout \<Rightarrow> mv \<Rightarrow> bool" where
  "case_C L sigma \<longleftrightarrow>
     check_sigma_for_positive_root L sigma = Inr False \<and>
     check_sigma_for_negative_root L sigma = Inr False \<and>
     check_infinite_roots L sigma = Inr True"

definition no_case :: "layout \<Rightarrow> mv \<Rightarrow> bool" where
  "no_case L sigma \<longleftrightarrow>
     check_sigma_for_positive_root L sigma = Inr False \<and>
     check_sigma_for_negative_root L sigma = Inr False \<and>
     check_infinite_roots L sigma = Inr False"

text \<open>The coefficient of a multivector at a blade.\<close>

definition coef :: "mv \<Rightarrow> blade \<Rightarrow> real" where
  "coef a w = a ! blade_index w"

text \<open>
  Sample multivectors: the coefficients 0, 1, ..., 31; the vector \<open>3 e1 + 4 e5\<close>, of
  square \<open>-7\<close>; the vector \<open>e1\<close>, of square 1; and \<open>2 + e1234\<close>, whose product with its
  reverse is \<open>5 + 4 e1234\<close>.
\<close>

definition sample_mv :: mv where
  "sample_mv = map real [0..<32]"

definition vec_a :: mv where
  "vec_a = [0, 3, 0, 0, 0, 4, 0, 0, 0, 0, 0, 0, 0, 0, 0, 0, 0, 0, 0, 0, 0, 0, 0, 0, 0, 0,
            0, 0, 0, 0, 0, 0]"

definition vec_b :: mv where
  "vec_b = [0, 1, 0, 0, 0, 0, 0, 0, 0, 0, 0, 0, 0, 0, 0, 0, 0, 0, 0, 0, 0, 0, 0, 0, 0, 0,
            0, 0, 0, 0, 0, 0]"

definition quad_c :: mv where
  "quad_c = [2, 0, 0, 0, 0, 0, 0, 0, 0, 0, 0, 0, 0, 0, 0, 0, 0, 0, 0, 0, 0, 0, 0, 0, 0, 0,
             1, 0, 0, 0, 0, 0]"

section \<open>Grade projection: the band is copied, the rest is zero\<close>

lemma get_slice_length: "hi \<le> length val \<Longrightarrow> length (get_slice val lo hi) = hi - lo"
  by (simp add: get_slice_def)

lemma get_slice_nth: "hi \<le> length val \<Longrightarrow> i < hi - lo \<Longrightarrow> get_slice val lo hi ! i = val ! (lo + i)"
  by (simp add: get_slice_def)

lemma set_slice_ok:
  assumes "lo \<le> hi" "hi \<le> length output" "length src = hi - lo"
  shows "set_slice output lo hi src = Inr (take lo output @ src @ drop hi output)"
  using assms by (simp add: set_slice_def get_slice_def)

lemma slice_update_nth:
  assumes "lo \<le> hi" "hi \<le> length output" "length src = hi - lo" "i < length output"
  shows "(take lo output @ src @ drop hi output) ! i =
           (if lo \<le> i \<and> i < hi then src ! (i - lo) else output ! i)"
  using assms by (auto simp add: nth_append)

lemma project_band:
  assumes "length val = 32" "lo \<le> hi" "hi \<le> 32"
  shows "set_slice (np_zeros 32) lo hi (get_slice val lo hi) =
           Inr (map (\<lambda>i. if lo \<le> i \<and> i < hi then val ! i else 0) [0..<32])"
proof -
  let ?src = "get_slice val lo hi"
  let ?out = "take lo (np_zeros 32) @ ?src @ drop hi (np_zeros 32)"
  let ?f = "\<lambda>i. if lo \<le> i \<and> i < hi then val ! i else 0"
  have len: "length ?src = hi - lo"
    using assms by (simp add: get_slice_length)
  have "?out = map ?f [0..<32]"
  proof (rule nth_equalityI)
    show "length ?out = length (map ?f [0..<32])"
      using assms len by (simp add: np_zeros_def)
  next
    fix i assume "i < length ?out"
    then have i: "i < 32"
      using assms len by (simp add: np_zeros_def)
    then have "?out ! i = (if lo \<le> i \<and> i < hi then ?src ! (i - lo) else np_zeros 32 ! i)"
      using assms len by (intro slice_update_nth) (simp_all add: np_zeros_def)
    also have "\<dots> = ?f i"
      using assms i by (auto simp add: get_slice_nth np_zeros_def)
    finally show "?out ! i = map ?f [0..<32] ! i"
      using i by simp
  qed
  moreover have "set_slice (np_zeros 32) lo hi ?src = Inr ?out"
    using assms len by (intro set_slice_ok) (simp_all add: np_zeros_def)
  ultimately show ?thesis by simp
qed

lemma project_single:
  assumes "length val = 32" "k < 32"
  shows "bind_err (get_item val k) (\<lambda>x. set_item (np_zeros 32) k x) =
           Inr (map (\<lambda>i. if i = k then val ! i else 0) [0..<32])"
proof -
  have "(np_zeros 32)[k := val ! k] = map (\<lambda>i. if i = k then val ! i else 0) [0..<32]"
    by (rule nth_equalityI) (auto simp add: np_zeros_def nth_list_update)
  then show ?thesis
    using assms by (simp add: bind_err_def get_item_def set_item_def np_zeros_def)
qed

lemma project_val_eq:
  assumes "length val = 32" and "fits_int64 grade"
  shows "project_val val grade = Inr (band_mask val grade)"
proof -
  note fits = assms(2)
  consider "grade = 0" | "grade = 1" | "grade = 2" | "grade = 3" | "grade = 4" | "grade = 5"
    | "grade < 0 \<or> grade > 5"
    by linarith
  then show ?thesis
  proof cases
    case 1
    then show ?thesis
      using project_single [OF assms(1), of 0] fits
      by (simp add: project_val_def band_mask_def band_def)
  next
    case 2
    then show ?thesis
      using project_band [OF assms(1), of 1 6] fits
      by (simp add: project_val_def band_mask_def band_def)
  next
    case 3
    then show ?thesis
      using project_band [OF assms(1), of 6 16] fits
      by (simp add: project_val_def band_mask_def band_def)
  next
    case 4
    then show ?thesis
      using project_band [OF assms(1), of 16 26] fits
      by (simp add: project_val_def band_mask_def band_def)
  next
    case 5
    then show ?thesis
      using project_band [OF assms(1), of 26 31] fits
      by (simp add: project_val_def band_mask_def band_def)
  next
    case 6
    then show ?thesis
      using project_single [OF assms(1), of 31] fits
      by (simp add: project_val_def band_mask_def band_def)
  next
    case 7
    have "np_zeros 32 = map (\<lambda>i. 0) [0..<32]"
      by (simp add: np_zeros_def map_replicate_const)
    with 7 fits show ?thesis
      by (auto simp add: project_val_def band_mask_def band_def)
  qed
qed

lemma band_mask_length: "length (band_mask val grade) = 32"
  by (simp add: band_mask_def)

lemma band_mask_nth:
  "i < 32 \<Longrightarrow> band_mask val grade ! i = (if i \<in> band grade then val ! i else 0)"
  by (simp add: band_mask_def)

lemma band_mask_idem: "band_mask (band_mask val grade) grade = band_mask val grade"
  by (rule nth_equalityI) (simp_all add: band_mask_length band_mask_nth)

lemma sample_mv_length: "length sample_mv = 32"
  by (simp add: sample_mv_def)

text \<open>
  C9.  For a 32-component multivector \<open>v\<close> and a grade \<open>g\<close> from 0 to 5, the projection
  succeeds with a 32-component result \<open>p\<close>, projecting \<open>p\<close> again at the same grade gives
  \<open>p\<close> back, and \<open>p\<close> has the coefficient of \<open>v\<close> at every index inside the band of \<open>g\<close>
  and zero at every other index.
\<close>

theorem project_val_idempotent:
  assumes "length v = 32" and "0 \<le> g" and "g \<le> 5"
  shows "\<exists>p. project_val v g = Inr p \<and> project_val p g = Inr p \<and> length p = 32 \<and>
           (\<forall>i<32. p ! i = (if i \<in> band g then v ! i else 0))"
proof -
  have "fits_int64 g"
    using assms(2,3) by (simp add: fits_int64_def)
  then show ?thesis
    using assms(1)
    by (simp add: project_val_eq band_mask_length band_mask_nth band_mask_idem)
qed

theorem project_val_idempotent_witness:
  "length sample_mv = 32 \<and> (0::int) \<le> 2 \<and> (2::int) \<le> 5 \<and>
   (\<exists>p. project_val sample_mv 2 = Inr p \<and> project_val p 2 = Inr p \<and> length p = 32 \<and>
        (\<forall>i<32. p ! i = (if i \<in> band 2 then sample_mv ! i else 0)))"
  using project_val_idempotent [OF sample_mv_length, of 2] sample_mv_length by simp

text \<open>
  The grade is not any integer: at \<open>2^63\<close>, the first integer above the 64-bit range,
  the call raises instead of returning zeros.
\<close>

theorem project_val_out_of_range_counterexample:
  "length sample_mv = 32 \<and> (5::int) < 2 ^ 63 \<and>
   project_val sample_mv (2 ^ 63) = Inl OverflowError \<and>
   project_val sample_mv (2 ^ 63) \<noteq> Inr (replicate 32 0)"
  by (simp add: sample_mv_length project_val_def fits_int64_def)

text \<open>
  C10, amended.  For a 32-component multivector and a grade below 0 or above 5 that
  fits a signed 64-bit integer, the projection raises nothing and returns the
  multivector of 32 zeros.
\<close>

theorem project_val_out_of_range:
  assumes "length v = 32" and "g < 0 \<or> 5 < g" and "- (2 ^ 63) \<le> g" and "g < 2 ^ 63"
  shows "project_val v g = Inr (replicate 32 0)"
  using assms(2,3,4) by (auto simp add: project_val_def fits_int64_def np_zeros_def)

theorem project_val_out_of_range_witness:
  "length sample_mv = 32 \<and> ((7::int) < 0 \<or> 5 < (7::int)) \<and>
   - (2 ^ 63) \<le> (7::int) \<and> (7::int) < 2 ^ 63 \<and>
   project_val sample_mv 7 = Inr (replicate 32 0) \<and>
   project_val sample_mv (- 1) = Inr (replicate 32 0) \<and>
   project_val sample_mv (2 ^ 63 - 1) = Inr (replicate 32 0) \<and>
   project_val sample_mv (- (2 ^ 63)) = Inr (replicate 32 0)"
  using project_val_out_of_range [OF sample_mv_length, of 7]
    project_val_out_of_range [OF sample_mv_length, of "- 1"]
    project_val_out_of_range [OF sample_mv_length, of "2 ^ 63 - 1"]
    project_val_out_of_range [OF sample_mv_length, of "- (2 ^ 63)"] sample_mv_length
  by simp

section \<open>The exponential of a vanishing bivector\<close>

lemma unit_scalar_mv_value:
  assumes "length (e1 L) = 32"
  shows "unit_scalar_mv L = scalar_mv 1"
proof (rule nth_equalityI)
  show "length (unit_scalar_mv L) = length (scalar_mv 1)"
    using assms
    by (simp add: unit_scalar_mv_def mv_add_scalar_def mv_add_def mv_smul_def scalar_mv_def)
next
  fix i assume "i < length (unit_scalar_mv L)"
  then have i: "i < 32"
    using assms
    by (simp add: unit_scalar_mv_def mv_add_scalar_def mv_add_def mv_smul_def scalar_mv_def)
  then show "unit_scalar_mv L ! i = scalar_mv 1 ! i"
    using assms
    by (simp add: unit_scalar_mv_def mv_add_scalar_def mv_add_def mv_smul_def scalar_mv_def)
qed

lemma sum_abs_zero: "sum_abs (replicate n 0) = 0"
  by (induction n) (simp_all add: sum_abs_def)

lemma g3c_e1_length: "length (e1 g3c) = 32"
  by (simp add: g3c_def unit_mv_def)

text \<open>
  C4.  With a backend whose basis vector \<open>e1\<close> is a 32-component array: if the sum of
  the absolute coefficients of \<open>B\<close> is below the machine epsilon, \<open>ga_exp\<close> returns the
  identity versor, scalar 1 and every other coefficient 0; and so it does on the zero
  bivector.
\<close>

theorem ga_exp_identity:
  assumes "length (e1 L) = 32"
  shows "(sum_abs B < float_eps \<longrightarrow> ga_exp L B = Inr (1 # replicate 31 0)) \<and>
         ga_exp L (replicate 32 0) = Inr (1 # replicate 31 0)"
  using assms
  by (simp add: ga_exp_def unit_scalar_mv_value sum_abs_zero float_eps_def scalar_mv_def)

theorem ga_exp_identity_witness:
  "length (e1 g3c) = 32 \<and> sum_abs ((replicate 32 0)[6 := 1 / 2 ^ 53]) < float_eps \<and>
   ga_exp g3c ((replicate 32 0)[6 := 1 / 2 ^ 53]) = Inr (1 # replicate 31 0) \<and>
   ga_exp g3c (replicate 32 0) = Inr (1 # replicate 31 0)"
proof -
  have small: "sum_abs ((replicate 32 0)[6 := 1 / 2 ^ 53]) < float_eps"
    by (simp add: sum_abs_def float_eps_def numeral_nat replicate_Suc list_update_code)
  show ?thesis
    using ga_exp_identity [OF g3c_e1_length, of "(replicate 32 0)[6 := 1 / 2 ^ 53]"]
      small g3c_e1_length
    by simp
qed

section \<open>The conformal backend is a geometric algebra\<close>

subsection \<open>Blades and their positions\<close>

lemma blade_bits_length: "length blade_bits = 32"
  by (simp add: blade_bits_def)

lemma upt32: "[0..<32] = [0,1,2,3,4,5,6,7,8,9,10,11,12,13,14,15,16,17,18,19,20,21,22,23,24,25,26,27,28,29,30,31::nat]"
  by (simp add: upt_rec numeral_nat)

lemma blade_index_bits: "k < 32 \<Longrightarrow> blade_index (blade_bits ! k) = k"
proof -
  assume "k < 32"
  then have "k \<in> set [0..<32]" by simp
  then have "k \<in> {0,1,2,3,4,5,6,7,8,9,10,11,12,13,14,15,16,17,18,19,20,21,22,23,24,25,26,27,28,29,30,31}"
    unfolding upt32 by simp
  then show ?thesis
    by (elim insertE emptyE) (simp_all add: blade_index_def blade_bits_def)
qed

lemma word5_enum: "(w::5 word) \<in> set (map of_nat [0..<32])"
proof -
  have "unat w < 2 ^ 5" using unsigned_less [of w, where ?'a = nat] by simp
  then have "unat w \<in> set [0..<32]" by simp
  then have "(word_of_nat (unat w) :: 5 word) \<in> word_of_nat ` set [0..<32]"
    by (rule imageI)
  moreover have "(word_of_nat (unat w) :: 5 word) = w" by simp
  ultimately show ?thesis by (simp only: set_map)
qed

lemma blade_bits_all: "set blade_bits = UNIV"
proof -
  have "w \<in> set blade_bits" for w :: "5 word"
    using word5_enum [of w] unfolding upt32 by (auto simp add: blade_bits_def)
  then show ?thesis by auto
qed

lemma blade_bits_distinct: "distinct blade_bits"
  by (simp add: blade_bits_def)

lemma blade_bits_index: "blade_bits ! blade_index w = w"
proof -
  have "w \<in> set blade_bits" using blade_bits_all by simp
  then obtain k where "k < 32" "blade_bits ! k = w"
    by (auto simp add: in_set_conv_nth blade_bits_length)
  then show ?thesis using blade_index_bits by auto
qed

lemma blade_index_less: "blade_index w < 32"
proof -
  have "w \<in> set blade_bits" using blade_bits_all by simp
  then obtain k where "k < 32" "blade_bits ! k = w"
    by (auto simp add: in_set_conv_nth blade_bits_length)
  then show ?thesis using blade_index_bits by auto
qed

subsection \<open>Coefficients of a product and the sign of a blade product\<close>

lemma blade_sum: "sum_list (map f blade_bits) = (\<Sum>w\<in>UNIV. f w)"
  using sum_list_distinct_conv_sum_set [OF blade_bits_distinct, of f]
  by (simp add: blade_bits_all)

lemma blade_product_length: "length (blade_product keep a b) = 32"
  by (simp add: blade_product_def)

lemma coef_gmt:
  "coef (g3c_gmt a b) m = (\<Sum>p\<in>UNIV. blade_sign p (p XOR m) * coef a p * coef b (p XOR m))"
  using blade_index_less [of m]
  by (simp add: coef_def g3c_gmt_def blade_product_def blade_sum blade_bits_index Let_def)

lemma mv_eqI:
  assumes "length a = 32" "length b = 32" "\<And>w. coef a w = coef b w"
  shows "a = b"
proof (rule nth_equalityI)
  show "length a = length b" using assms by simp
next
  fix i assume "i < length a"
  then have "i < 32" using assms by simp
  then have "blade_index (blade_bits ! i) = i" by (rule blade_index_bits)
  with assms(3) [of "blade_bits ! i"] show "a ! i = b ! i" by (simp add: coef_def)
qed

lemma odd_pairs_xor_left:
  "odd_pairs ps (a XOR a') b = (odd_pairs ps a b \<noteq> odd_pairs ps a' b)"
  by (induction ps) (auto simp add: odd_pairs_def bit_xor_iff)

lemma odd_pairs_xor_right:
  "odd_pairs ps a (b XOR b') = (odd_pairs ps a b \<noteq> odd_pairs ps a b')"
  by (induction ps) (auto simp add: odd_pairs_def bit_xor_iff)

lemma blade_sign_cocycle:
  "blade_sign p (p XOR m) * blade_sign q (q XOR p) =
   blade_sign q (q XOR m) * blade_sign (q XOR p) (p XOR m)"
  by (simp add: blade_sign_def blade_negative_def odd_pairs_xor_left odd_pairs_xor_right)

subsection \<open>The geometric product is associative\<close>

lemma xor_reindex: "(\<Sum>r\<in>(UNIV::blade set). f r) = (\<Sum>p\<in>UNIV. f (q XOR p))"
proof -
  have "bij (\<lambda>p. q XOR p)"
    by (rule involuntory_imp_bij) (simp add: xor.assoc [symmetric])
  then have "(\<Sum>p\<in>UNIV. f (q XOR p)) = (\<Sum>r\<in>UNIV. f r)"
    by (rule sum.reindex_bij_betw [of "\<lambda>p. q XOR p" UNIV UNIV f, simplified bij_betw_def [symmetric]])
  then show ?thesis by simp
qed

lemma g3c_gmt_assoc: "g3c_gmt (g3c_gmt a b) c = g3c_gmt a (g3c_gmt b c)"
proof (rule mv_eqI)
  show "length (g3c_gmt (g3c_gmt a b) c) = 32" by (simp add: g3c_gmt_def blade_product_length)
  show "length (g3c_gmt a (g3c_gmt b c)) = 32" by (simp add: g3c_gmt_def blade_product_length)
next
  fix m
  have "coef (g3c_gmt (g3c_gmt a b) c) m =
      (\<Sum>p\<in>UNIV. \<Sum>q\<in>UNIV. blade_sign p (p XOR m) * blade_sign q (q XOR p) *
          coef a q * coef b (q XOR p) * coef c (p XOR m))"
    by (simp add: coef_gmt sum_distrib_left sum_distrib_right mult_ac)
  also have "\<dots> = (\<Sum>p\<in>UNIV. \<Sum>q\<in>UNIV. blade_sign q (q XOR m) * blade_sign (q XOR p) (p XOR m) *
          coef a q * coef b (q XOR p) * coef c (p XOR m))"
    by (simp only: blade_sign_cocycle)
  also have "\<dots> = (\<Sum>q\<in>UNIV. \<Sum>p\<in>UNIV. blade_sign q (q XOR m) * blade_sign (q XOR p) (p XOR m) *
          coef a q * coef b (q XOR p) * coef c (p XOR m))"
    by (rule sum.swap)
  also have "\<dots> = (\<Sum>q\<in>UNIV. \<Sum>r\<in>UNIV. blade_sign q (q XOR m) * blade_sign r (r XOR (q XOR m)) *
          coef a q * coef b r * coef c (r XOR (q XOR m)))"
  proof (rule sum.cong [OF refl])
    fix q :: blade
    have e: "(q XOR p) XOR (q XOR m) = p XOR m" for p
      by (metis xor.assoc xor.commute xor.left_neutral xor_self_eq)
    show "(\<Sum>p\<in>UNIV. blade_sign q (q XOR m) * blade_sign (q XOR p) (p XOR m) *
          coef a q * coef b (q XOR p) * coef c (p XOR m)) =
       (\<Sum>r\<in>UNIV. blade_sign q (q XOR m) * blade_sign r (r XOR (q XOR m)) *
          coef a q * coef b r * coef c (r XOR (q XOR m)))"
      by (subst xor_reindex [of _ q]) (simp add: e)
  qed
  also have "\<dots> = coef (g3c_gmt a (g3c_gmt b c)) m"
    by (simp add: coef_gmt sum_distrib_left sum_distrib_right mult_ac)
  finally show "coef (g3c_gmt (g3c_gmt a b) c) m = coef (g3c_gmt a (g3c_gmt b c)) m" .
qed

subsection \<open>Scalars, scaling and the inverse of a scalar\<close>

lemma blade_index_zero_iff: "blade_index w = 0 \<longleftrightarrow> w = 0"
proof
  assume "blade_index w = 0"
  then have "blade_bits ! blade_index w = blade_bits ! 0" by simp
  then show "w = 0" by (simp add: blade_bits_index) (simp add: blade_bits_def)
next
  assume "w = 0" then show "blade_index w = 0" by (simp add: blade_index_def)
qed

lemma coef_scalar_mv: "coef (scalar_mv c) w = (if w = 0 then c else 0)"
proof (cases "w = 0")
  case True
  then show ?thesis by (simp add: coef_def scalar_mv_def blade_index_def)
next
  case False
  then have "blade_index w \<noteq> 0" by (simp add: blade_index_zero_iff)
  then obtain j where j: "blade_index w = Suc j" by (cases "blade_index w") auto
  with blade_index_less [of w] have "j < 31" by simp
  with j False show ?thesis by (simp add: coef_def scalar_mv_def)
qed

lemma coef_smul: "length a = 32 \<Longrightarrow> coef (mv_smul c a) w = c * coef a w"
  using blade_index_less [of w] by (simp add: coef_def mv_smul_def)

lemma odd_pairs_zero_left: "odd_pairs ps 0 b = False"
  by (induction ps) (auto simp add: odd_pairs_def)

lemma blade_sign_zero_left: "blade_sign 0 b = 1"
  by (simp add: blade_sign_def blade_negative_def odd_pairs_zero_left)

lemma g3c_gmt_length: "length (g3c_gmt a b) = 32"
  by (simp add: g3c_gmt_def blade_product_length)

lemma g3c_scalar_acts:
  assumes "length a = 32"
  shows "g3c_gmt (scalar_mv c) a = mv_smul c a"
proof (rule mv_eqI)
  show "length (g3c_gmt (scalar_mv c) a) = 32" by (rule g3c_gmt_length)
  show "length (mv_smul c a) = 32" using assms by (simp add: mv_smul_def)
next
  fix m
  have "coef (g3c_gmt (scalar_mv c) a) m =
      (\<Sum>p\<in>(UNIV::blade set). if p = 0 then blade_sign 0 m * c * coef a m else 0)"
    unfolding coef_gmt coef_scalar_mv by (intro sum.cong refl) simp
  also have "\<dots> = c * coef a m"
    by (simp add: blade_sign_zero_left)
  finally show "coef (g3c_gmt (scalar_mv c) a) m = coef (mv_smul c a) m"
    using assms by (simp add: coef_smul)
qed

lemma g3c_gmt_smul:
  assumes "length a = 32" "length b = 32"
  shows "g3c_gmt (mv_smul c a) (mv_smul d b) = mv_smul (c * d) (g3c_gmt a b)"
proof (rule mv_eqI)
  show "length (g3c_gmt (mv_smul c a) (mv_smul d b)) = 32" by (rule g3c_gmt_length)
  show "length (mv_smul (c * d) (g3c_gmt a b)) = 32" by (simp add: mv_smul_def g3c_gmt_length)
next
  fix m
  show "coef (g3c_gmt (mv_smul c a) (mv_smul d b)) m = coef (mv_smul (c * d) (g3c_gmt a b)) m"
    using assms
    by (simp add: coef_gmt coef_smul g3c_gmt_length sum_distrib_left mult_ac)
qed

lemma g3c_adjoint_length: "length (g3c_adjoint a) = length a"
  by (simp add: g3c_adjoint_def)

lemma g3c_adjoint_smul: "g3c_adjoint (mv_smul c a) = mv_smul c (g3c_adjoint a)"
  by (rule nth_equalityI) (simp_all add: g3c_adjoint_def mv_smul_def)

lemma g3c_adjoint_scalar: "g3c_adjoint (scalar_mv c) = scalar_mv c"
proof (rule nth_equalityI)
  show "length (g3c_adjoint (scalar_mv c)) = length (scalar_mv c)"
    by (simp add: g3c_adjoint_def)
next
  fix i assume "i < length (g3c_adjoint (scalar_mv c))"
  then have i: "i < 32" by (simp add: g3c_adjoint_def scalar_mv_def)
  show "g3c_adjoint (scalar_mv c) ! i = scalar_mv c ! i"
  proof (cases i)
    case 0
    then show ?thesis by (simp add: g3c_adjoint_def scalar_mv_def reverse_sign_def)
  next
    case (Suc j)
    with i show ?thesis by (simp add: g3c_adjoint_def scalar_mv_def)
  qed
qed

lemma scalar_mv_length: "length (scalar_mv c) = 32"
  by (simp add: scalar_mv_def)

lemma mv_smul_scalar: "mv_smul c (scalar_mv d) = scalar_mv (c * d)"
  by (simp add: mv_smul_def scalar_mv_def)

lemma is_scalar_scalar_mv: "is_scalar (scalar_mv c)"
  by (simp add: is_scalar_def scalar_mv_def list_all_length)

lemma negate_scalar:
  "negate_grades_1_4 (scalar_mv c) = scalar_mv c" "negate_grade_5 (scalar_mv c) = scalar_mv c"
  by (rule nth_equalityI; simp add: negate_grades_1_4_def negate_grade_5_def scalar_mv_def
      band_def nth_Cons'; fail)+

lemma g3c_gmt_scalars: "g3c_gmt (scalar_mv c) (scalar_mv d) = scalar_mv (c * d)"
  by (simp add: g3c_scalar_acts scalar_mv_length mv_smul_scalar)

lemma g3c_inv_scalar:
  assumes "c \<noteq> 0"
  shows "g3c_inv (scalar_mv c) = Inr (scalar_mv (1 / c))"
proof -
  let ?n = "c * c * (c * c) * (c * c * (c * c))"
  have cand: "inverse_candidate (scalar_mv c) = (?n, scalar_mv (c * (c * c * (c * c * (c * c)))))"
    by (simp add: inverse_candidate_def Let_def g3c_adjoint_scalar negate_scalar g3c_gmt_scalars)
      (simp add: scalar_mv_def)
  have n: "?n \<noteq> 0" using assms by simp
  have d: "map (\<lambda>y. y / ?n) (scalar_mv (c * (c * c * (c * c * (c * c))))) = scalar_mv (1 / c)"
    using assms by (simp add: scalar_mv_def)
  have one: "g3c_gmt (scalar_mv (1 / c)) (scalar_mv c) = scalar_mv 1"
    using assms by (simp add: g3c_gmt_scalars)
  show ?thesis
    unfolding g3c_inv_def cand Let_def prod.case d using n one by simp
qed

subsection \<open>The adjoint reverses a product\<close>

lemma reverse_sign_pairs:
  "reverse_sign (blade_index w) = (if odd_pairs swap_pairs w w then - 1 else 1)"
proof -
  have "\<forall>w\<in>set blade_bits.
          reverse_sign (blade_index w) = (if odd_pairs swap_pairs w w then - 1 else 1)"
    by (simp add: blade_bits_def blade_index_def reverse_sign_def odd_pairs_def swap_pairs_def
        bit_numeral_simps)
  then show ?thesis by (simp add: blade_bits_all)
qed

lemma coef_adjoint:
  "length a = 32 \<Longrightarrow> coef (g3c_adjoint a) w = reverse_sign (blade_index w) * coef a w"
  using blade_index_less [of w] by (simp add: coef_def g3c_adjoint_def)

lemma odd_pairs_Cons:
  "odd_pairs ((i, j) # ps) a b = ((bit a i \<and> bit b j) \<noteq> odd_pairs ps a b)"
  by (simp add: odd_pairs_def)

lemma blade_sign_reverse:
  "reverse_sign (blade_index (p XOR q)) * blade_sign p q =
   blade_sign q p * reverse_sign (blade_index q) * reverse_sign (blade_index p)"
  by (auto simp add: reverse_sign_pairs blade_sign_def blade_negative_def odd_pairs_Cons
      odd_pairs_xor_left odd_pairs_xor_right)

lemma g3c_adjoint_gmt:
  assumes "length a = 32" "length b = 32"
  shows "g3c_adjoint (g3c_gmt a b) = g3c_gmt (g3c_adjoint b) (g3c_adjoint a)"
proof (rule mv_eqI)
  show "length (g3c_adjoint (g3c_gmt a b)) = 32"
    by (simp add: g3c_adjoint_length g3c_gmt_length)
  show "length (g3c_gmt (g3c_adjoint b) (g3c_adjoint a)) = 32"
    by (rule g3c_gmt_length)
next
  fix m
  have x: "(p XOR m) XOR m = p" for p :: blade
    by (simp add: xor.assoc)
  have y: "p XOR (p XOR m) = m" for p :: blade
    by (simp add: xor.assoc [symmetric])
  have "coef (g3c_gmt (g3c_adjoint b) (g3c_adjoint a)) m =
      (\<Sum>q\<in>UNIV. blade_sign q (q XOR m) * reverse_sign (blade_index q) *
          reverse_sign (blade_index (q XOR m)) * coef b q * coef a (q XOR m))"
    using assms by (simp add: coef_gmt coef_adjoint mult_ac)
  also have "\<dots> = (\<Sum>p\<in>UNIV. blade_sign (m XOR p) ((m XOR p) XOR m) * reverse_sign (blade_index (m XOR p)) *
          reverse_sign (blade_index ((m XOR p) XOR m)) * coef b (m XOR p) * coef a ((m XOR p) XOR m))"
    by (rule xor_reindex)
  also have "\<dots> = (\<Sum>p\<in>UNIV. blade_sign (p XOR m) p * reverse_sign (blade_index (p XOR m)) *
          reverse_sign (blade_index p) * coef b (p XOR m) * coef a p)"
    by (simp add: xor.commute [of m] x)
  also have "\<dots> = (\<Sum>p\<in>UNIV. reverse_sign (blade_index m) * blade_sign p (p XOR m) *
          coef b (p XOR m) * coef a p)"
  proof -
    have key: "blade_sign (p XOR m) p * reverse_sign (blade_index (p XOR m)) *
          reverse_sign (blade_index p) = reverse_sign (blade_index m) * blade_sign p (p XOR m)" for p
      using blade_sign_reverse [of p "p XOR m"] by (simp add: y)
    show ?thesis by (simp only: key)
  qed
  also have "\<dots> = coef (g3c_adjoint (g3c_gmt a b)) m"
    by (simp add: coef_adjoint g3c_gmt_length coef_gmt sum_distrib_left mult_ac)
  finally show "coef (g3c_adjoint (g3c_gmt a b)) m = coef (g3c_gmt (g3c_adjoint b) (g3c_adjoint a)) m"
    by simp
qed

subsection \<open>The laws of the backend\<close>

lemma g3c_closed: "closed_layout g3c"
  by (simp add: closed_layout_def g3c_def g3c_gmt_length g3c_adjoint_length)

lemma g3c_associative: "gmt_associative g3c"
  by (simp add: gmt_associative_def g3c_def g3c_gmt_assoc)

lemma g3c_reverses: "adjoint_reverses g3c"
  by (simp add: adjoint_reverses_def g3c_def g3c_adjoint_gmt)

lemma g3c_scalar: "scalar_acts g3c"
  by (simp add: scalar_acts_def g3c_def g3c_scalar_acts)

lemma g3c_homogeneous: "homogeneous g3c"
  by (simp add: homogeneous_def g3c_def g3c_gmt_smul g3c_adjoint_smul)

lemma g3c_inv_scalar_law: "inv_scalar g3c"
  by (simp add: inv_scalar_def g3c_def g3c_inv_scalar)

section \<open>Root finding on a scalar sigma\<close>

lemma g3c_inv_left: "g3c_inv k = Inr x \<Longrightarrow> g3c_gmt x k = scalar_mv 1"
  by (auto simp add: g3c_inv_def Let_def split: prod.splits if_splits)

lemma bind_err_Inr [simp]: "bind_err (Inr v) f = f v"
  by (simp add: bind_err_def)

lemma bind_err_Inl [simp]: "bind_err (Inl e) f = Inl e"
  by (simp add: bind_err_def)

lemma get_item_scalar [simp]: "get_item (scalar_mv s) 0 = Inr s"
  by (simp add: get_item_def scalar_mv_def)

lemma mv_call_scalar: "mv_call (scalar_mv s) 4 = mv_smul 0 (scalar_mv 0)"
  by (rule nth_equalityI) (auto simp add: mv_call_def mv_smul_def scalar_mv_def band_def nth_Cons')

lemma zero_square:
  assumes "scalar_acts L"
  shows "mv_pow2 L (mv_smul 0 (scalar_mv 0)) = scalar_mv 0"
proof -
  have "mv_smul 0 (scalar_mv 0) = scalar_mv 0" by (simp add: mv_smul_scalar)
  moreover have "gmt_func L (scalar_mv 0) (scalar_mv 0) = mv_smul 0 (scalar_mv 0)"
    using assms by (simp add: scalar_acts_def scalar_mv_length)
  ultimately show ?thesis by (simp add: mv_pow2_def)
qed

lemma dorst_norm_scalar:
  assumes "scalar_acts L"
  shows "dorst_norm_val L (scalar_mv s) = Inr \<bar>s\<bar>"
  using assms by (simp add: dorst_norm_val_def mv_call_scalar zero_square math_sqrt_def)

lemma check_positive_scalar:
  "scalar_acts L \<Longrightarrow> check_sigma_for_positive_root L (scalar_mv s) = Inr (0 < s)"
  by (auto simp add: check_sigma_for_positive_root_def dorst_norm_scalar)

lemma check_negative_scalar:
  "scalar_acts L \<Longrightarrow> check_sigma_for_negative_root L (scalar_mv s) = Inr False"
  by (auto simp add: check_sigma_for_negative_root_def dorst_norm_scalar)

lemma check_infinite_scalar:
  "scalar_acts L \<Longrightarrow> s \<le> 0 \<Longrightarrow> check_infinite_roots L (scalar_mv s) = Inr True"
  by (auto simp add: check_infinite_roots_def dorst_norm_scalar)

lemma mv_add_scalar_scalar: "mv_add_scalar (scalar_mv a) b = scalar_mv (a + b)"
  by (simp add: mv_add_scalar_def mv_add_def scalar_mv_def)

lemma mv_div_scalar_scalar: "d \<noteq> 0 \<Longrightarrow> mv_div_scalar (scalar_mv a) d = Inr (scalar_mv (a / d))"
  by (simp add: mv_div_scalar_def scalar_mv_def)

lemma positive_root_scalar:
  assumes "scalar_acts L" "0 < s"
  shows "positive_root L (scalar_mv s) = Inr (scalar_mv (sqrt s))"
proof -
  have d: "sqrt 2 * sqrt (s + s) \<noteq> 0" using assms(2) by simp
  have "sqrt 2 * sqrt (s + s) = 2 * sqrt s"
    by (simp add: real_sqrt_mult [symmetric] algebra_simps) (simp add: real_sqrt_mult)
  moreover have "(s + s) / (2 * sqrt s) = sqrt s"
    using assms(2) by (simp add: field_simps)
  ultimately have "(s + s) / (sqrt 2 * sqrt (s + s)) = sqrt s" by simp
  with assms d show ?thesis
    by (simp add: positive_root_def dorst_norm_scalar math_sqrt_def mv_add_scalar_scalar
        mv_div_scalar_scalar)
qed

lemma mv_rdiv_scalar:
  assumes "scalar_acts L" "inv_scalar L" "c \<noteq> 0"
  shows "mv_rdiv L 1 (scalar_mv c) = Inr (scalar_mv (1 / c))"
  using assms
  by (simp add: mv_rdiv_def inv_scalar_def scalar_acts_def scalar_mv_length mv_smul_scalar)

section \<open>The cases of the root finders\<close>

lemma bind_err_assoc: "bind_err (bind_err r f) g = bind_err r (\<lambda>v. bind_err (f v) g)"
  by (cases r) simp_all

lemma neg_root_case_A:
  "case_A L (neg_sigma L C) \<Longrightarrow>
   neg_twiddle_root L C = bind_err (twiddle_branch positive_root L (neg_sigma L C) C) (\<lambda>C3. Inr [C3])"
  by (simp add: case_A_def neg_twiddle_root_def neg_sigma_def twiddle_branch_def bind_err_assoc Let_def)

lemma neg_root_case_B:
  "case_B L (neg_sigma L C) \<Longrightarrow>
   neg_twiddle_root L C =
     bind_err (twiddle_branch positive_root L (neg_sigma L C) C) (\<lambda>C3.
     bind_err (twiddle_branch negative_root L (neg_sigma L C) C) (\<lambda>C4. Inr [C3, C4]))"
  by (simp add: case_B_def neg_twiddle_root_def neg_sigma_def twiddle_branch_def bind_err_assoc Let_def)

lemma neg_root_case_C:
  "case_C L (neg_sigma L C) \<Longrightarrow>
   neg_twiddle_root L C = bind_err (normal L C) (\<lambda>Cn. Inr [Cn])"
  by (simp add: case_C_def neg_twiddle_root_def neg_sigma_def Let_def)

lemma neg_root_no_case:
  "no_case L (neg_sigma L C) \<Longrightarrow> neg_twiddle_root L C = Inl NoRootExists"
  by (simp add: no_case_def neg_twiddle_root_def neg_sigma_def Let_def)

lemma pos_root_case_A:
  "case_A L (pos_sigma L C) \<Longrightarrow>
   pos_twiddle_root L C = bind_err (twiddle_branch positive_root L (pos_sigma L C) C) (\<lambda>C3. Inr [C3])"
  by (simp add: case_A_def pos_twiddle_root_def pos_sigma_def twiddle_branch_def bind_err_assoc Let_def)

lemma pos_root_case_B:
  "case_B L (pos_sigma L C) \<Longrightarrow>
   pos_twiddle_root L C =
     bind_err (twiddle_branch positive_root L (pos_sigma L C) C) (\<lambda>C3.
     bind_err (twiddle_branch negative_root L (pos_sigma L C) C) (\<lambda>C4. Inr [C3, C4]))"
  by (simp add: case_B_def pos_twiddle_root_def pos_sigma_def twiddle_branch_def bind_err_assoc Let_def)

lemma pos_root_case_C:
  "case_C L (pos_sigma L C) \<Longrightarrow>
   pos_twiddle_root L C = bind_err (normal L C) (\<lambda>Cn. Inr [Cn])"
  by (simp add: case_C_def pos_twiddle_root_def pos_sigma_def Let_def)

lemma pos_root_no_case:
  "no_case L (pos_sigma L C) \<Longrightarrow> pos_twiddle_root L C = Inl NoRootExists"
  by (simp add: no_case_def pos_twiddle_root_def pos_sigma_def Let_def)

lemma bind_err_InrD: "bind_err r f = Inr y \<Longrightarrow> \<exists>v. r = Inr v \<and> f v = Inr y"
  by (cases r) simp_all

lemma neg_root_length:
  assumes "neg_twiddle_root L C = Inr roots"
  shows "length roots = 1 \<or> length roots = 2"
  using assms unfolding neg_twiddle_root_def Let_def
  by (auto dest!: bind_err_InrD split: if_splits)

lemma pos_root_length:
  assumes "pos_twiddle_root L C = Inr roots"
  shows "length roots = 1 \<or> length roots = 2"
  using assms unfolding pos_twiddle_root_def Let_def
  by (auto dest!: bind_err_InrD split: if_splits)

text \<open>The checks share one norm: what one of them decides limits the others.\<close>

lemma math_sqrt_nonneg: "math_sqrt x = Inr n \<Longrightarrow> 0 \<le> n"
  by (auto simp add: math_sqrt_def split: if_splits)

lemma dorst_norm_nonneg: "dorst_norm_val L sigma = Inr n \<Longrightarrow> 0 \<le> n"
  unfolding dorst_norm_val_def by (auto dest!: bind_err_InrD dest: math_sqrt_nonneg)

lemma case_B_never: "\<not> case_B L sigma"
proof
  assume "case_B L sigma"
  then obtain s0 n where "dorst_norm_val L sigma = Inr n" and "\<not> 0 < s0 + n" and "0 < s0 - n"
    unfolding case_B_def check_sigma_for_positive_root_def check_sigma_for_negative_root_def
    by (auto dest!: bind_err_InrD)
  moreover from this have "0 \<le> n" by (simp add: dorst_norm_nonneg)
  ultimately show False by simp
qed

lemma no_case_never: "\<not> no_case L sigma"
  unfolding no_case_def check_sigma_for_positive_root_def check_infinite_roots_def
  by (auto dest!: bind_err_InrD)

lemma neg_root_single:
  assumes "neg_twiddle_root L C = Inr roots"
  shows "length roots = 1"
proof -
  have "\<not> case_B L (neg_sigma L C)" by (rule case_B_never)
  then show ?thesis
    using assms unfolding neg_twiddle_root_def Let_def case_B_def neg_sigma_def
    by (auto dest!: bind_err_InrD split: if_splits)
qed

lemma pos_root_single:
  assumes "pos_twiddle_root L C = Inr roots"
  shows "length roots = 1"
proof -
  have "\<not> case_B L (pos_sigma L C)" by (rule case_B_never)
  then show ?thesis
    using assms unfolding pos_twiddle_root_def Let_def case_B_def pos_sigma_def
    by (auto dest!: bind_err_InrD split: if_splits)
qed

section \<open>Normalization and the root of a valid object\<close>

lemma closed_adjoint: "closed_layout L \<Longrightarrow> length a = 32 \<Longrightarrow> length (adjoint_func L a) = 32"
  unfolding closed_layout_def by blast

lemma closed_gmt:
  "closed_layout L \<Longrightarrow> length a = 32 \<Longrightarrow> length b = 32 \<Longrightarrow> length (gmt_func L a b) = 32"
  unfolding closed_layout_def by blast

lemma mv_mag2_value:
  assumes "closed_layout L" "length a = 32"
  shows "mv_mag2 L a = Inr (gmt_func L (adjoint_func L a) a ! 0)"
proof -
  have "length (adjoint_func L a) = 32" using assms by (simp add: closed_adjoint)
  then have "length (gmt_func L (adjoint_func L a) a) = 32"
    using assms by (simp add: closed_gmt)
  then show ?thesis by (simp add: mv_mag2_def get_item_def)
qed

lemma normal_value:
  assumes "closed_layout L" "length a = 32"
  shows "normal L a =
    (if gmt_func L (adjoint_func L a) a ! 0 = 0 then Inl NonFinite
     else Inr (mv_smul (1 / sqrt \<bar>gmt_func L (adjoint_func L a) a ! 0\<bar>) a))"
  using assms
  by (simp add: normal_def mv_abs_def mv_mag2_value mv_div_scalar_def mv_smul_def)

lemma mv_smul_length: "length (mv_smul c a) = length a"
  by (simp add: mv_smul_def)

lemma mv_smul_smul: "mv_smul c (mv_smul d a) = mv_smul (c * d) a"
  by (simp add: mv_smul_def mult.assoc)

lemma mag2_smul:
  assumes "closed_layout L" "homogeneous L" "length a = 32"
  shows "gmt_func L (adjoint_func L (mv_smul c a)) (mv_smul c a) ! 0 =
         c * c * (gmt_func L (adjoint_func L a) a ! 0)"
proof -
  have la: "length (adjoint_func L a) = 32" using assms by (simp add: closed_adjoint)
  then have lg: "length (gmt_func L (adjoint_func L a) a) = 32"
    using assms by (simp add: closed_gmt)
  have "adjoint_func L (mv_smul c a) = mv_smul c (adjoint_func L a)"
    using assms(2,3) unfolding homogeneous_def by blast
  moreover have "gmt_func L (mv_smul c (adjoint_func L a)) (mv_smul c a) =
      mv_smul (c * c) (gmt_func L (adjoint_func L a) a)"
    using assms(2,3) la unfolding homogeneous_def by blast
  ultimately show ?thesis using lg by (simp add: mv_smul_def)
qed

lemma normal_smul:
  assumes "closed_layout L" "homogeneous L" "length a = 32" "0 < c"
  shows "normal L (mv_smul c a) = normal L a"
proof -
  let ?m = "gmt_func L (adjoint_func L a) a ! 0"
  have "sqrt \<bar>c * c * ?m\<bar> = c * sqrt \<bar>?m\<bar>"
    using assms(4) by (simp add: abs_mult real_sqrt_mult)
  then show ?thesis
    using assms
    by (simp add: normal_value mv_smul_length mag2_smul mv_smul_smul)
qed


lemma is_scalar_eq:
  assumes "is_scalar a" "length a = 32"
  shows "a = scalar_mv (a ! 0)"
proof (rule nth_equalityI)
  show "length a = length (scalar_mv (a ! 0))" using assms by (simp add: scalar_mv_def)
next
  fix i assume i: "i < length a"
  show "a ! i = scalar_mv (a ! 0) ! i"
  proof (cases i)
    case 0
    then show ?thesis by (simp add: scalar_mv_def)
  next
    case (Suc j)
    with i assms have "tl a ! j = 0" by (simp add: is_scalar_def list_all_length)
    moreover have "tl a ! j = a ! Suc j" using assms i Suc by (simp add: nth_tl)
    ultimately show ?thesis using Suc i assms by (simp add: scalar_mv_def)
  qed
qed

lemma mv_neg_scalar: "mv_neg (scalar_mv s) = scalar_mv (- s)"
  by (simp add: mv_neg_def scalar_mv_def)

lemma twiddle_branch_scalar:
  assumes "closed_layout L" "scalar_acts L" "homogeneous L" "inv_scalar L"
    and "length C = 32" "0 < s"
  shows "twiddle_branch positive_root L (scalar_mv s) C = normal L C"
proof -
  have r: "0 < sqrt s" using assms(6) by simp
  then have "mv_rdiv L 1 (scalar_mv (sqrt s)) = Inr (scalar_mv (1 / sqrt s))"
    using assms by (intro mv_rdiv_scalar) simp_all
  moreover have "gmt_func L (scalar_mv (1 / sqrt s)) C = mv_smul (1 / sqrt s) C"
    using assms(2,5) by (simp add: scalar_acts_def)
  moreover have "normal L (mv_smul (1 / sqrt s) C) = normal L C"
    using assms r by (intro normal_smul) simp_all
  ultimately show ?thesis
    using assms by (simp add: twiddle_branch_def positive_root_scalar)
qed

lemma scalar_sigma_cases:
  assumes "scalar_acts L"
  shows "if 0 < s then case_A L (scalar_mv s) else case_C L (scalar_mv s)"
  using assms
  by (simp add: case_A_def case_C_def check_positive_scalar check_negative_scalar
      check_infinite_scalar)

lemma valid_object_sigma:
  assumes "closed_layout L" "valid_object L X"
  shows "gmt_func L X (adjoint_func L X) = scalar_mv (gmt_func L X (adjoint_func L X) ! 0)"
proof -
  have len: "length X = 32" using assms(2) by (simp add: valid_object_def)
  then have "length (adjoint_func L X) = 32" using assms(1) by (simp add: closed_adjoint)
  then have "length (gmt_func L X (adjoint_func L X)) = 32"
    using assms(1) len by (simp add: closed_gmt)
  then show ?thesis using assms(2) by (intro is_scalar_eq) (simp_all add: valid_object_def)
qed

lemma neg_twiddle_valid:
  assumes "closed_layout L" "scalar_acts L" "homogeneous L" "inv_scalar L" "valid_object L X"
  shows "neg_twiddle_root L X = bind_err (normal L X) (\<lambda>r. Inr [r])"
proof -
  obtain s where s: "neg_sigma L X = scalar_mv s"
    using valid_object_sigma [OF assms(1,5)] by (metis neg_sigma_def mv_neg_scalar)
  have len: "length X = 32" using assms(5) by (simp add: valid_object_def)
  show ?thesis
  proof (cases "0 < s")
    case True
    then have "case_A L (neg_sigma L X)" using scalar_sigma_cases [OF assms(2), of s] s by simp
    then show ?thesis
      using twiddle_branch_scalar [OF assms(1-4) len True] s by (simp add: neg_root_case_A)
  next
    case False
    then have "case_C L (neg_sigma L X)" using scalar_sigma_cases [OF assms(2), of s] s by simp
    then show ?thesis by (simp add: neg_root_case_C)
  qed
qed

lemma pos_twiddle_valid:
  assumes "closed_layout L" "scalar_acts L" "homogeneous L" "inv_scalar L" "valid_object L X"
  shows "pos_twiddle_root L X = bind_err (normal L X) (\<lambda>r. Inr [r])"
proof -
  obtain s where s: "pos_sigma L X = scalar_mv s"
    using valid_object_sigma [OF assms(1,5)] by (metis pos_sigma_def)
  have len: "length X = 32" using assms(5) by (simp add: valid_object_def)
  show ?thesis
  proof (cases "0 < s")
    case True
    then have "case_A L (pos_sigma L X)" using scalar_sigma_cases [OF assms(2), of s] s by simp
    then show ?thesis
      using twiddle_branch_scalar [OF assms(1-4) len True] s by (simp add: pos_root_case_A)
  next
    case False
    then have "case_C L (pos_sigma L X)" using scalar_sigma_cases [OF assms(2), of s] s by simp
    then show ?thesis by (simp add: pos_root_case_C)
  qed
qed

lemma first_single: "first [r] = Inr r"
  by (simp add: first_def)


section \<open>Sample objects in the conformal backend\<close>

lemma vec_a_length: "length vec_a = 32"
  by (simp add: vec_a_def)

lemma vec_b_length: "length vec_b = 32"
  by (simp add: vec_b_def)

lemma quad_c_length: "length quad_c = 32"
  by (simp add: quad_c_def)

lemma vec_a_adjoint: "g3c_adjoint vec_a = vec_a"
  unfolding vec_a_def by code_simp

lemma vec_a_square: "g3c_gmt vec_a vec_a = scalar_mv (- 7)"
  unfolding vec_a_def by code_simp

lemma vec_b_adjoint: "g3c_adjoint vec_b = vec_b"
  unfolding vec_b_def by code_simp

lemma vec_b_square: "g3c_gmt vec_b vec_b = scalar_mv 1"
  unfolding vec_b_def by code_simp

lemma vec_a_valid: "valid_object g3c vec_a"
  by (simp add: valid_object_def g3c_def vec_a_length vec_a_adjoint vec_a_square is_scalar_scalar_mv)


lemma vec_a_sigma: "neg_sigma g3c vec_a = scalar_mv 7"
  by (simp add: neg_sigma_def g3c_def vec_a_adjoint vec_a_square mv_neg_scalar)

lemma vec_b_sigma: "neg_sigma g3c vec_b = scalar_mv (- 1)"
  by (simp add: neg_sigma_def g3c_def vec_b_adjoint vec_b_square mv_neg_scalar)

lemma vec_a_normal: "normal g3c vec_a = Inr (mv_smul (1 / sqrt 7) vec_a)"
  using normal_value [OF g3c_closed vec_a_length]
  by (simp add: g3c_def vec_a_adjoint vec_a_square scalar_mv_def)

lemma mv_smul_one: "mv_smul 1 a = a"
  by (simp add: mv_smul_def)

lemma vec_b_normal: "normal g3c vec_b = Inr vec_b"
  using normal_value [OF g3c_closed vec_b_length]
  by (simp add: g3c_def vec_b_adjoint vec_b_square scalar_mv_def mv_smul_one)

lemma scalar_normal:
  assumes "c \<noteq> 0"
  shows "normal g3c (scalar_mv c) = Inr (scalar_mv (c / \<bar>c\<bar>))"
proof -
  have "g3c_gmt (g3c_adjoint (scalar_mv c)) (scalar_mv c) ! 0 = c * c"
    by (simp add: g3c_adjoint_scalar g3c_gmt_scalars) (simp add: scalar_mv_def)
  moreover have "sqrt \<bar>c * c\<bar> = \<bar>c\<bar>"
    by (simp add: abs_mult real_sqrt_mult [symmetric] flip: power2_eq_square)
  ultimately show ?thesis
    using normal_value [OF g3c_closed scalar_mv_length, of c] assms
    by (simp add: g3c_def mv_smul_scalar)
qed

lemma scalar_mv_list: "scalar_mv s = [s, 0, 0, 0, 0, 0, 0, 0, 0, 0, 0, 0, 0, 0, 0, 0, 0, 0, 0, 0, 0, 0, 0, 0, 0, 0, 0, 0, 0, 0, 0, 0]"
  by (simp add: scalar_mv_def numeral_nat)

lemma sqrt_9: "sqrt 9 = 3"
  using real_sqrt_abs [of 3] by simp

lemma sqrt_2_8: "sqrt 2 * sqrt 8 = 4"
proof -
  have "sqrt 2 * sqrt 8 = sqrt 16" by (simp add: real_sqrt_mult [symmetric])
  also have "\<dots> = 4" using real_sqrt_abs [of 4] by simp
  finally show ?thesis .
qed

lemma quad_c_adjoint: "g3c_adjoint quad_c = quad_c"
  unfolding quad_c_def by code_simp

lemma quad_c_square: "g3c_gmt quad_c quad_c = [5, 0, 0, 0, 0, 0, 0, 0, 0, 0, 0, 0, 0, 0, 0, 0, 0, 0, 0, 0, 0, 0, 0, 0, 0, 0, 4, 0, 0, 0, 0, 0]"
  unfolding quad_c_def by code_simp

lemma quad_c_sigma: "pos_sigma g3c quad_c = [5, 0, 0, 0, 0, 0, 0, 0, 0, 0, 0, 0, 0, 0, 0, 0, 0, 0, 0, 0, 0, 0, 0, 0, 0, 0, 4, 0, 0, 0, 0, 0]"
  by (simp add: pos_sigma_def g3c_def quad_c_adjoint quad_c_square)

lemma sigma_c_grade4: "mv_call [5, 0, 0, 0, 0, 0, 0, 0, 0, 0, 0, 0, 0, 0, 0, 0, 0, 0, 0, 0, 0, 0, 0, 0, 0, 0, 4, 0, 0, 0, 0, 0] 4 = [0, 0, 0, 0, 0, 0, 0, 0, 0, 0, 0, 0, 0, 0, 0, 0, 0, 0, 0, 0, 0, 0, 0, 0, 0, 0, 4, 0, 0, 0, 0, 0]"
  by code_simp

lemma sigma_c_grade4_square: "g3c_gmt [0, 0, 0, 0, 0, 0, 0, 0, 0, 0, 0, 0, 0, 0, 0, 0, 0, 0, 0, 0, 0, 0, 0, 0, 0, 0, 4, 0, 0, 0, 0, 0] [0, 0, 0, 0, 0, 0, 0, 0, 0, 0, 0, 0, 0, 0, 0, 0, 0, 0, 0, 0, 0, 0, 0, 0, 0, 0, 4, 0, 0, 0, 0, 0] = scalar_mv 16"
  by code_simp

lemma sigma_c_negate: "negate_grades_1_4 [5, 0, 0, 0, 0, 0, 0, 0, 0, 0, 0, 0, 0, 0, 0, 0, 0, 0, 0, 0, 0, 0, 0, 0, 0, 0, 4, 0, 0, 0, 0, 0] = [5, 0, 0, 0, 0, 0, 0, 0, 0, 0, 0, 0, 0, 0, 0, 0, 0, 0, 0, 0, 0, 0, 0, 0, 0, 0, - 4, 0, 0, 0, 0, 0]"
  by code_simp

lemma sigma_c_norm: "g3c_gmt [5, 0, 0, 0, 0, 0, 0, 0, 0, 0, 0, 0, 0, 0, 0, 0, 0, 0, 0, 0, 0, 0, 0, 0, 0, 0, 4, 0, 0, 0, 0, 0] [5, 0, 0, 0, 0, 0, 0, 0, 0, 0, 0, 0, 0, 0, 0, 0, 0, 0, 0, 0, 0, 0, 0, 0, 0, 0, - 4, 0, 0, 0, 0, 0] = scalar_mv 9"
  by code_simp

lemma sigma_c_conj_scaled: "g3c_gmt [5, 0, 0, 0, 0, 0, 0, 0, 0, 0, 0, 0, 0, 0, 0, 0, 0, 0, 0, 0, 0, 0, 0, 0, 0, 0, - 4, 0, 0, 0, 0, 0] (scalar_mv 9) = [45, 0, 0, 0, 0, 0, 0, 0, 0, 0, 0, 0, 0, 0, 0, 0, 0, 0, 0, 0, 0, 0, 0, 0, 0, 0, - 36, 0, 0, 0, 0, 0]"
  by code_simp

lemma quad_c_candidate: "g3c_gmt quad_c [45, 0, 0, 0, 0, 0, 0, 0, 0, 0, 0, 0, 0, 0, 0, 0, 0, 0, 0, 0, 0, 0, 0, 0, 0, 0, - 36, 0, 0, 0, 0, 0] = [54, 0, 0, 0, 0, 0, 0, 0, 0, 0, 0, 0, 0, 0, 0, 0, 0, 0, 0, 0, 0, 0, 0, 0, 0, 0, - 27, 0, 0, 0, 0, 0]"
  unfolding quad_c_def by code_simp

lemma quad_c_inverse_check: "g3c_gmt [2 / 3, 0, 0, 0, 0, 0, 0, 0, 0, 0, 0, 0, 0, 0, 0, 0, 0, 0, 0, 0, 0, 0, 0, 0, 0, 0, - (1 / 3), 0, 0, 0, 0, 0] quad_c = scalar_mv 1"
  unfolding quad_c_def by code_simp

lemma quad_c_inverse: "g3c_inv quad_c = Inr [2 / 3, 0, 0, 0, 0, 0, 0, 0, 0, 0, 0, 0, 0, 0, 0, 0, 0, 0, 0, 0, 0, 0, 0, 0, 0, 0, - (1 / 3), 0, 0, 0, 0, 0]"
proof -
  have "inverse_candidate quad_c = (81, [54, 0, 0, 0, 0, 0, 0, 0, 0, 0, 0, 0, 0, 0, 0, 0, 0, 0, 0, 0, 0, 0, 0, 0, 0, 0, - 27, 0, 0, 0, 0, 0])"
    by (simp add: inverse_candidate_def Let_def quad_c_adjoint quad_c_square sigma_c_negate
        sigma_c_norm negate_scalar g3c_gmt_scalars sigma_c_conj_scaled quad_c_candidate)
      (simp add: scalar_mv_def)
  then show ?thesis
    by (simp add: g3c_inv_def quad_c_inverse_check)
qed

lemma sigma_c_dorst: "dorst_norm_val g3c [5, 0, 0, 0, 0, 0, 0, 0, 0, 0, 0, 0, 0, 0, 0, 0, 0, 0, 0, 0, 0, 0, 0, 0, 0, 0, 4, 0, 0, 0, 0, 0] = Inr 3"
  by (simp add: dorst_norm_val_def get_item_def mv_pow2_def g3c_def sigma_c_grade4
      sigma_c_grade4_square math_sqrt_def sqrt_9 scalar_mv_def)

lemma sigma_c_case_A: "case_A g3c (pos_sigma g3c quad_c)"
  by (simp add: case_A_def check_sigma_for_positive_root_def quad_c_sigma sigma_c_dorst)
    (simp add: get_item_def)

lemma sigma_c_negative_check:
  "check_sigma_for_negative_root g3c (pos_sigma g3c quad_c) = Inr True"
  by (simp add: check_sigma_for_negative_root_def quad_c_sigma sigma_c_dorst)
    (simp add: get_item_def)

lemma sigma_c_positive_root: "positive_root g3c [5, 0, 0, 0, 0, 0, 0, 0, 0, 0, 0, 0, 0, 0, 0, 0, 0, 0, 0, 0, 0, 0, 0, 0, 0, 0, 4, 0, 0, 0, 0, 0] = Inr quad_c"
  by (simp add: positive_root_def sigma_c_dorst math_sqrt_def get_item_def sqrt_2_8
      mv_add_scalar_def mv_add_def scalar_mv_list mv_div_scalar_def quad_c_def)

lemma quad_c_branch: "twiddle_branch positive_root g3c (pos_sigma g3c quad_c) quad_c = Inr (scalar_mv 1)"
proof -
  have "mv_rdiv g3c 1 quad_c = Inr [2 / 3, 0, 0, 0, 0, 0, 0, 0, 0, 0, 0, 0, 0, 0, 0, 0, 0, 0, 0, 0, 0, 0, 0, 0, 0, 0, - (1 / 3), 0, 0, 0, 0, 0]"
    by (simp add: mv_rdiv_def g3c_def quad_c_inverse)
      (simp add: g3c_scalar_acts mv_smul_one)
  then show ?thesis
    using scalar_normal [of 1]
    by (simp add: twiddle_branch_def quad_c_sigma sigma_c_positive_root)
      (simp add: g3c_def quad_c_inverse_check)
qed

section \<open>The case order of the root finders\<close>

text \<open>
  C1.  Both root finders test the conditions in the order A, B, C: in case A the
  result is the list of the one root of the positive branch; in case B (A has failed)
  it is the list of the root of the positive branch followed by the root of the
  negative branch; in case C (A and B have failed) it is the list of \<open>C\<close> normalized;
  when all three conditions fail it is the failure \<open>NoRootExists\<close>; and every list
  that is returned has one or two elements.
\<close>

theorem twiddle_root_case_order:
  "(case_A L (neg_sigma L C) \<longrightarrow>
      neg_twiddle_root L C =
        bind_err (twiddle_branch positive_root L (neg_sigma L C) C) (\<lambda>C3. Inr [C3])) \<and>
   (case_B L (neg_sigma L C) \<longrightarrow>
      neg_twiddle_root L C =
        bind_err (twiddle_branch positive_root L (neg_sigma L C) C) (\<lambda>C3.
        bind_err (twiddle_branch negative_root L (neg_sigma L C) C) (\<lambda>C4. Inr [C3, C4]))) \<and>
   (case_C L (neg_sigma L C) \<longrightarrow>
      neg_twiddle_root L C = bind_err (normal L C) (\<lambda>Cn. Inr [Cn])) \<and>
   (no_case L (neg_sigma L C) \<longrightarrow> neg_twiddle_root L C = Inl NoRootExists) \<and>
   (case_A L (pos_sigma L C) \<longrightarrow>
      pos_twiddle_root L C =
        bind_err (twiddle_branch positive_root L (pos_sigma L C) C) (\<lambda>C3. Inr [C3])) \<and>
   (case_B L (pos_sigma L C) \<longrightarrow>
      pos_twiddle_root L C =
        bind_err (twiddle_branch positive_root L (pos_sigma L C) C) (\<lambda>C3.
        bind_err (twiddle_branch negative_root L (pos_sigma L C) C) (\<lambda>C4. Inr [C3, C4]))) \<and>
   (case_C L (pos_sigma L C) \<longrightarrow>
      pos_twiddle_root L C = bind_err (normal L C) (\<lambda>Cn. Inr [Cn])) \<and>
   (no_case L (pos_sigma L C) \<longrightarrow> pos_twiddle_root L C = Inl NoRootExists) \<and>
   (\<forall>roots. neg_twiddle_root L C = Inr roots \<or> pos_twiddle_root L C = Inr roots \<longrightarrow>
      length roots = 1 \<or> length roots = 2)"
  using neg_root_case_A [of L C] neg_root_case_B [of L C] neg_root_case_C [of L C]
    neg_root_no_case [of L C] pos_root_case_A [of L C] pos_root_case_B [of L C]
    pos_root_case_C [of L C] pos_root_no_case [of L C] neg_root_length [of L C]
    pos_root_length [of L C]
  by blast

theorem twiddle_root_case_order_witness:
  "case_A g3c (neg_sigma g3c vec_a) \<and>
   neg_twiddle_root g3c vec_a = Inr [mv_smul (1 / sqrt 7) vec_a] \<and>
   case_C g3c (neg_sigma g3c vec_b) \<and>
   neg_twiddle_root g3c vec_b = Inr [vec_b] \<and>
   case_A g3c (pos_sigma g3c quad_c) \<and>
   check_sigma_for_negative_root g3c (pos_sigma g3c quad_c) = Inr True \<and>
   pos_twiddle_root g3c quad_c = Inr [scalar_mv 1]"
proof -
  have a: "case_A g3c (neg_sigma g3c vec_a)"
    using scalar_sigma_cases [OF g3c_scalar, of 7] by (simp add: vec_a_sigma)
  have c: "case_C g3c (neg_sigma g3c vec_b)"
    using scalar_sigma_cases [OF g3c_scalar, of "- 1"] by (simp add: vec_b_sigma)
  have "twiddle_branch positive_root g3c (neg_sigma g3c vec_a) vec_a = normal g3c vec_a"
    using twiddle_branch_scalar [OF g3c_closed g3c_scalar g3c_homogeneous g3c_inv_scalar_law
        vec_a_length, of 7]
    by (simp add: vec_a_sigma)
  then have "neg_twiddle_root g3c vec_a = Inr [mv_smul (1 / sqrt 7) vec_a]"
    using twiddle_root_case_order [of g3c vec_a] a by (simp add: vec_a_normal)
  moreover have "neg_twiddle_root g3c vec_b = Inr [vec_b]"
    using twiddle_root_case_order [of g3c vec_b] c by (simp add: vec_b_normal)
  moreover have "pos_twiddle_root g3c quad_c = Inr [scalar_mv 1]"
    using twiddle_root_case_order [of g3c quad_c] sigma_c_case_A by (simp add: quad_c_branch)
  ultimately show ?thesis
    using a c sigma_c_case_A sigma_c_negative_check by simp
qed

section \<open>The formula of the roots\<close>

lemma positive_root_formula:
  assumes "dorst_norm_val L sigma = Inr n" "get_item sigma 0 = Inr s0" "0 < s0 + n"
  shows "positive_root L sigma =
           Inr (map (\<lambda>x. x / (sqrt 2 * sqrt (s0 + n))) (mv_add_scalar sigma n))"
  using assms by (simp add: positive_root_def math_sqrt_def mv_div_scalar_def)

lemma negative_root_formula:
  assumes "dorst_norm_val L sigma = Inr n" "get_item sigma 0 = Inr s0" "0 < s0 - n"
  shows "negative_root L sigma =
           Inr (map (\<lambda>x. x / (sqrt 2 * sqrt (s0 - n))) (mv_sub_scalar sigma n))"
  using assms by (simp add: negative_root_def math_sqrt_def mv_div_scalar_def)

lemma case_A_iff:
  assumes "dorst_norm_val L sigma = Inr n" "get_item sigma 0 = Inr s0"
  shows "case_A L sigma \<longleftrightarrow> 0 < s0 + n"
  using assms by (simp add: case_A_def check_sigma_for_positive_root_def)

lemma case_B_iff:
  assumes "dorst_norm_val L sigma = Inr n" "get_item sigma 0 = Inr s0"
  shows "case_B L sigma \<longleftrightarrow> \<not> 0 < s0 + n \<and> 0 < s0 - n"
  using assms
  by (simp add: case_B_def check_sigma_for_positive_root_def check_sigma_for_negative_root_def)

text \<open>
  The spec's formula puts \<open>C\<close> where the code has \<open>sigma\<close>, and takes the quotient itself
  for the root, where the code divides \<open>C\<close> by it.  On the vector \<open>3 e1 + 4 e5\<close> the
  negative root finder is in case A and returns the vector divided by \<open>sqrt 7\<close>, while
  the spec's formula gives \<open>7 + 3 e1 + 4 e5\<close> divided by \<open>sqrt 42\<close>.
\<close>

lemma vec_a_shifted_adjoint: "g3c_adjoint [7, 3, 0, 0, 0, 4, 0, 0, 0, 0, 0, 0, 0, 0, 0, 0, 0, 0, 0, 0, 0, 0, 0, 0, 0, 0, 0, 0, 0, 0, 0, 0] = [7, 3, 0, 0, 0, 4, 0, 0, 0, 0, 0, 0, 0, 0, 0, 0, 0, 0, 0, 0, 0, 0, 0, 0, 0, 0, 0, 0, 0, 0, 0, 0]"
  by code_simp

lemma vec_a_shifted_square: "g3c_gmt [7, 3, 0, 0, 0, 4, 0, 0, 0, 0, 0, 0, 0, 0, 0, 0, 0, 0, 0, 0, 0, 0, 0, 0, 0, 0, 0, 0, 0, 0, 0, 0] [7, 3, 0, 0, 0, 4, 0, 0, 0, 0, 0, 0, 0, 0, 0, 0, 0, 0, 0, 0, 0, 0, 0, 0, 0, 0, 0, 0, 0, 0, 0, 0] ! 0 = 42"
  by code_simp

lemma vec_a_spec_root:
  "spec_positive_branch g3c (neg_sigma g3c vec_a) vec_a = Inr (mv_smul (1 / sqrt 42) [7, 3, 0, 0, 0, 4, 0, 0, 0, 0, 0, 0, 0, 0, 0, 0, 0, 0, 0, 0, 0, 0, 0, 0, 0, 0, 0, 0, 0, 0, 0, 0])"
proof -
  let ?Y = "[7, 3, 0, 0, 0, 4, 0, 0, 0, 0, 0, 0, 0, 0, 0, 0, 0, 0, 0, 0, 0, 0, 0, 0, 0, 0, 0, 0, 0, 0, 0, 0]"
  have len: "length ?Y = 32" by simp
  have d: "0 < 1 / (sqrt 2 * sqrt 14)" by simp
  have "mv_div_scalar (mv_add_scalar vec_a 7) (sqrt 2 * sqrt 14) =
          Inr (mv_smul (1 / (sqrt 2 * sqrt 14)) ?Y)"
    by (simp add: mv_div_scalar_def mv_add_scalar_def mv_add_def scalar_mv_list vec_a_def
        mv_smul_def)
  moreover have "normal g3c (mv_smul (1 / (sqrt 2 * sqrt 14)) ?Y) = normal g3c ?Y"
    using normal_smul [OF g3c_closed g3c_homogeneous len d] .
  moreover have "normal g3c ?Y = Inr (mv_smul (1 / sqrt 42) ?Y)"
    using normal_value [OF g3c_closed len]
    by (simp add: g3c_def vec_a_shifted_adjoint vec_a_shifted_square)
  ultimately show ?thesis
    by (simp add: spec_positive_branch_def vec_a_sigma dorst_norm_scalar [OF g3c_scalar])
qed

theorem twiddle_root_formula_counterexample:
  "case_A g3c (neg_sigma g3c vec_a) \<and>
   neg_twiddle_root g3c vec_a = Inr [mv_smul (1 / sqrt 7) vec_a] \<and>
   spec_positive_branch g3c (neg_sigma g3c vec_a) vec_a =
     Inr (mv_smul (1 / sqrt 42) [7, 3, 0, 0, 0, 4, 0, 0, 0, 0, 0, 0, 0, 0, 0, 0, 0, 0, 0, 0, 0, 0, 0, 0, 0, 0, 0, 0, 0, 0, 0, 0]) \<and>
   neg_twiddle_root g3c vec_a \<noteq>
     bind_err (spec_positive_branch g3c (neg_sigma g3c vec_a) vec_a) (\<lambda>r. Inr [r])"
proof -
  have a: "case_A g3c (neg_sigma g3c vec_a)"
    using scalar_sigma_cases [OF g3c_scalar, of 7] by (simp add: vec_a_sigma)
  have r: "neg_twiddle_root g3c vec_a = Inr [mv_smul (1 / sqrt 7) vec_a]"
    using neg_twiddle_valid [OF g3c_closed g3c_scalar g3c_homogeneous g3c_inv_scalar_law
        vec_a_valid]
    by (simp add: vec_a_normal)
  have "mv_smul (1 / sqrt 7) vec_a ! 0 = 0"
    by (simp add: mv_smul_def vec_a_def)
  moreover have "mv_smul (1 / sqrt 42) [7, 3, 0, 0, 0, 4, 0, 0, 0, 0, 0, 0, 0, 0, 0, 0, 0, 0, 0, 0, 0, 0, 0, 0, 0, 0, 0, 0, 0, 0, 0, 0] ! 0 \<noteq> 0"
    by (simp add: mv_smul_def)
  ultimately have "mv_smul (1 / sqrt 7) vec_a \<noteq> mv_smul (1 / sqrt 42) [7, 3, 0, 0, 0, 4, 0, 0, 0, 0, 0, 0, 0, 0, 0, 0, 0, 0, 0, 0, 0, 0, 0, 0, 0, 0, 0, 0, 0, 0, 0, 0]"
    by metis
  then show ?thesis
    using a r by (simp add: vec_a_spec_root)
qed

text \<open>
  C2, amended.  With \<open>s0\<close> the scalar part of \<open>sigma\<close> and \<open>n\<close> its norm
  \<open>sqrt(s0^2 - scalar(s4 * s4))\<close>: when \<open>s0 + n > 0\<close>, \<open>positive_root\<close> is
  \<open>k = (sigma + n) / (sqrt(2) * sqrt(s0 + n))\<close>, and a root finder is in case A and
  returns the one root \<open>(1 / k) * C\<close> normalized; when \<open>s0 - n > 0\<close>, \<open>negative_root\<close>
  is \<open>k2 = (sigma - n) / (sqrt(2) * sqrt(s0 - n))\<close>; in case B a root finder returns the
  root of case A followed by \<open>(1 / k2) * C\<close> normalized.
\<close>

theorem twiddle_root_formula:
  assumes "sigma = neg_sigma L C \<and> res = neg_twiddle_root L C \<or>
           sigma = pos_sigma L C \<and> res = pos_twiddle_root L C"
    and "dorst_norm_val L sigma = Inr n" and "get_item sigma 0 = Inr s0"
    and "k = map (\<lambda>x. x / (sqrt 2 * sqrt (s0 + n))) (mv_add_scalar sigma n)"
    and "k2 = map (\<lambda>x. x / (sqrt 2 * sqrt (s0 - n))) (mv_sub_scalar sigma n)"
  shows "(0 < s0 + n \<longrightarrow>
            positive_root L sigma = Inr k \<and>
            res = bind_err (mv_rdiv L 1 k) (\<lambda>ki.
                  bind_err (normal L (gmt_func L ki C)) (\<lambda>C3. Inr [C3]))) \<and>
         (0 < s0 - n \<longrightarrow> negative_root L sigma = Inr k2) \<and>
         (\<not> 0 < s0 + n \<and> 0 < s0 - n \<longrightarrow>
            res = bind_err (mv_rdiv L 1 k) (\<lambda>ki.
                  bind_err (normal L (gmt_func L ki C)) (\<lambda>C3.
                  bind_err (mv_rdiv L 1 k2) (\<lambda>k2i.
                  bind_err (normal L (gmt_func L k2i C)) (\<lambda>C4. Inr [C3, C4])))))"
proof -
  have False if "\<not> 0 < s0 + n" "0 < s0 - n"
    using that case_B_never [of L sigma] case_B_iff [OF assms(2,3)] by simp
  moreover have "res = bind_err (mv_rdiv L 1 k) (\<lambda>ki.
                   bind_err (normal L (gmt_func L ki C)) (\<lambda>C3. Inr [C3]))" if "0 < s0 + n"
  proof -
    have a: "case_A L sigma" using that case_A_iff [OF assms(2,3)] by simp
    have "res = bind_err (twiddle_branch positive_root L sigma C) (\<lambda>C3. Inr [C3])"
      using assms(1) a neg_root_case_A [of L C] pos_root_case_A [of L C] by auto
    then show ?thesis
      using positive_root_formula [OF assms(2,3) that] assms(4)
      by (simp add: twiddle_branch_def bind_err_assoc)
  qed
  moreover have "positive_root L sigma = Inr k" if "0 < s0 + n"
    using positive_root_formula [OF assms(2,3) that] assms(4) by simp
  moreover have "negative_root L sigma = Inr k2" if "0 < s0 - n"
    using negative_root_formula [OF assms(2,3) that] assms(5) by simp
  ultimately show ?thesis by blast
qed

lemma sigma_c_roots:
  "map (\<lambda>x. x / (sqrt 2 * sqrt 8)) (mv_add_scalar [5, 0, 0, 0, 0, 0, 0, 0, 0, 0, 0, 0, 0, 0, 0, 0, 0, 0, 0, 0, 0, 0, 0, 0, 0, 0, 4, 0, 0, 0, 0, 0] 3) = quad_c"
  "map (\<lambda>x. x / 2) (mv_sub_scalar [5, 0, 0, 0, 0, 0, 0, 0, 0, 0, 0, 0, 0, 0, 0, 0, 0, 0, 0, 0, 0, 0, 0, 0, 0, 0, 4, 0, 0, 0, 0, 0] 3) = [1, 0, 0, 0, 0, 0, 0, 0, 0, 0, 0, 0, 0, 0, 0, 0, 0, 0, 0, 0, 0, 0, 0, 0, 0, 0, 2, 0, 0, 0, 0, 0]"
  using sqrt_2_8
  by (simp_all add: mv_add_scalar_def mv_sub_scalar_def mv_add_def mv_sub_def scalar_mv_list
      quad_c_def)

theorem twiddle_root_formula_witness:
  "dorst_norm_val g3c (pos_sigma g3c quad_c) = Inr 3 \<and>
   get_item (pos_sigma g3c quad_c) 0 = Inr 5 \<and> (0::real) < 5 + 3 \<and> (0::real) < 5 - 3 \<and>
   positive_root g3c (pos_sigma g3c quad_c) = Inr quad_c \<and>
   negative_root g3c (pos_sigma g3c quad_c) = Inr [1, 0, 0, 0, 0, 0, 0, 0, 0, 0, 0, 0, 0, 0, 0, 0, 0, 0, 0, 0, 0, 0, 0, 0, 0, 0, 2, 0, 0, 0, 0, 0] \<and>
   pos_twiddle_root g3c quad_c =
     bind_err (mv_rdiv g3c 1 quad_c) (\<lambda>ki.
     bind_err (normal g3c (gmt_func g3c ki quad_c)) (\<lambda>C3. Inr [C3])) \<and>
   pos_twiddle_root g3c quad_c = Inr [scalar_mv 1]"
proof -
  have d: "dorst_norm_val g3c (pos_sigma g3c quad_c) = Inr 3"
    by (simp add: quad_c_sigma sigma_c_dorst)
  have g: "get_item (pos_sigma g3c quad_c) 0 = Inr 5"
    by (simp add: quad_c_sigma get_item_def)
  note f = twiddle_root_formula [of "pos_sigma g3c quad_c" g3c quad_c "pos_twiddle_root g3c quad_c"
        3 5, OF _ d g refl refl]
  have p: "positive_root g3c (pos_sigma g3c quad_c) = Inr quad_c"
    using f by (simp add: quad_c_sigma sigma_c_roots)
  have n: "negative_root g3c (pos_sigma g3c quad_c) = Inr [1, 0, 0, 0, 0, 0, 0, 0, 0, 0, 0, 0, 0, 0, 0, 0, 0, 0, 0, 0, 0, 0, 0, 0, 0, 0, 2, 0, 0, 0, 0, 0]"
    using f by (simp add: quad_c_sigma sigma_c_roots)
  have r: "pos_twiddle_root g3c quad_c =
     bind_err (mv_rdiv g3c 1 quad_c) (\<lambda>ki.
     bind_err (normal g3c (gmt_func g3c ki quad_c)) (\<lambda>C3. Inr [C3]))"
    using f by (simp add: quad_c_sigma sigma_c_roots)
  have "pos_twiddle_root g3c quad_c = Inr [scalar_mv 1]"
  proof -
    from quad_c_branch p
    have "bind_err (mv_rdiv g3c 1 quad_c) (\<lambda>ki. normal g3c (gmt_func g3c ki quad_c)) =
            Inr (scalar_mv 1)"
      by (simp add: twiddle_branch_def)
    then have "bind_err (bind_err (mv_rdiv g3c 1 quad_c)
                 (\<lambda>ki. normal g3c (gmt_func g3c ki quad_c))) (\<lambda>C3. Inr [C3]) =
               Inr [scalar_mv 1]"
      by simp
    then show ?thesis unfolding r by (simp add: bind_err_assoc)
  qed
  then show ?thesis using d g p n r by simp
qed

section \<open>Interpolation and averaging\<close>









section \<open>The rotor between two objects\<close>

text \<open>
  C7.  When the scalar part of \<open>C1 * C1\<close> is positive, \<open>rotor_between_objects\<close> returns
  the first root that the positive root finder gives for \<open>1 + C2 * C1\<close>; otherwise it
  returns \<open>1 - C2 * C1\<close> normalized, without calling a root finder.
\<close>

theorem rotor_between_objects_cases:
  assumes "get_item (gmt_func L C1 C1) 0 = Inr c"
  shows "(0 < c \<longrightarrow>
            rotor_between_objects L C1 C2 =
              bind_err (pos_twiddle_root L (mv_add_scalar (gmt_func L C2 C1) 1))
                (\<lambda>roots. first roots)) \<and>
         (\<not> 0 < c \<longrightarrow>
            rotor_between_objects L C1 C2 = normal L (mv_rsub_scalar 1 (gmt_func L C2 C1)))"
  using assms by (simp add: rotor_between_objects_def Let_def)

lemma scalar_valid: "valid_object g3c (scalar_mv c)"
  by (simp add: valid_object_def scalar_mv_length g3c_def g3c_adjoint_scalar g3c_gmt_scalars
      is_scalar_scalar_mv)

theorem rotor_between_objects_cases_witness:
  "get_item (gmt_func g3c vec_b vec_b) 0 = Inr 1 \<and> (0::real) < 1 \<and>
   rotor_between_objects g3c vec_b vec_b = Inr (scalar_mv 1) \<and>
   get_item (gmt_func g3c vec_a vec_a) 0 = Inr (- 7) \<and> \<not> (0::real) < - 7 \<and>
   rotor_between_objects g3c vec_a vec_a = Inr (scalar_mv 1)"
proof -
  have b: "get_item (gmt_func g3c vec_b vec_b) 0 = Inr 1"
    by (simp add: g3c_def vec_b_square)
  have a: "get_item (gmt_func g3c vec_a vec_a) 0 = Inr (- 7)"
    by (simp add: g3c_def vec_a_square)
  have "pos_twiddle_root g3c (scalar_mv 2) = Inr [scalar_mv 1]"
    using pos_twiddle_valid [OF g3c_closed g3c_scalar g3c_homogeneous g3c_inv_scalar_law
        scalar_valid, of 2] scalar_normal [of 2]
    by simp
  moreover have "mv_add_scalar (gmt_func g3c vec_b vec_b) 1 = scalar_mv 2"
    by (simp add: g3c_def vec_b_square mv_add_scalar_scalar)
  ultimately have "rotor_between_objects g3c vec_b vec_b = Inr (scalar_mv 1)"
    using rotor_between_objects_cases [OF b, of vec_b] by (simp add: first_single)
  moreover have "mv_rsub_scalar 1 (gmt_func g3c vec_a vec_a) = scalar_mv 8"
    by (simp add: g3c_def vec_a_square mv_rsub_scalar_def mv_sub_def scalar_mv_def)
  then have "rotor_between_objects g3c vec_a vec_a = Inr (scalar_mv 1)"
    using rotor_between_objects_cases [OF a, of vec_a] scalar_normal [of 8] by simp
  ultimately show ?thesis
    using a b by simp
qed

section \<open>Applying rotors one after the other\<close>

text \<open>
  C8.  With a backend whose geometric product is associative and whose adjoint
  reverses products: applying \<open>R1\<close> and then \<open>R2\<close> to a multivector \<open>M\<close> is applying
  the geometric product of \<open>R2\<close> and \<open>R1\<close>, where applying \<open>R\<close> to \<open>M\<close> is
  \<open>R * M * adjoint R\<close>.
\<close>

theorem apply_rotor_composes:
  assumes "closed_layout L" and "gmt_associative L" and "adjoint_reverses L"
    and "length M = 32" and "length R1 = 32" and "length R2 = 32"
  shows "apply_rotor L M R = gmt_func L R (gmt_func L M (adjoint_func L R)) \<and>
         apply_rotor L (apply_rotor L M R1) R2 = apply_rotor L M (gmt_func L R2 R1)"
proof -
  let ?g = "gmt_func L" and ?r = "adjoint_func L"
  have assoc: "?g (?g a b) c = ?g a (?g b c)"
    if "length a = 32" "length b = 32" "length c = 32" for a b c
    using assms(2) that unfolding gmt_associative_def by blast
  have l1: "length (?r R1) = 32" and l2: "length (?r R2) = 32"
    using assms by (simp_all add: closed_adjoint)
  have lm: "length (?g M (?r R1)) = 32"
    using assms l1 by (simp add: closed_gmt)
  have "?r (?g R2 R1) = ?g (?r R1) (?r R2)"
    using assms(3,5,6) unfolding adjoint_reverses_def by blast
  then have "?g (?g R2 R1) (?g M (?r (?g R2 R1))) = ?g (?g R2 R1) (?g M (?g (?r R1) (?r R2)))"
    by simp
  also have "\<dots> = ?g (?g R2 R1) (?g (?g M (?r R1)) (?r R2))"
    using assms l1 l2 by (simp add: assoc)
  also have "\<dots> = ?g R2 (?g R1 (?g (?g M (?r R1)) (?r R2)))"
    using assms l1 l2 lm by (simp add: assoc closed_gmt)
  also have "\<dots> = ?g R2 (?g (?g R1 (?g M (?r R1))) (?r R2))"
    using assms l1 l2 lm by (simp add: assoc)
  finally show ?thesis
    by (simp add: apply_rotor_def val_apply_rotor_def)
qed

theorem apply_rotor_composes_witness:
  "closed_layout g3c \<and> gmt_associative g3c \<and> adjoint_reverses g3c \<and>
   length sample_mv = 32 \<and> length vec_a = 32 \<and> length quad_c = 32 \<and>
   apply_rotor g3c (apply_rotor g3c sample_mv vec_a) quad_c =
     apply_rotor g3c sample_mv (gmt_func g3c quad_c vec_a)"
  using apply_rotor_composes [OF g3c_closed g3c_associative g3c_reverses sample_mv_length
      vec_a_length quad_c_length, THEN conjunct2]
    g3c_closed g3c_associative g3c_reverses sample_mv_length vec_a_length quad_c_length
  by simp

end
